theory Spec2Isabelle
  imports Main "HOL-Library.Word" "HOL-Library.Sublist" "HOL-Library.Multiset"
    "HOL-Library.Char_ord" "HOL-Library.List_Lexorder"
begin

unbundle bit_operations_syntax

section \<open>Machine integers and time\<close>

text \<open>
  Go's \<open>int64\<close>, \<open>int\<close> (64 bits on the supported platforms) and \<open>time.Duration\<close>
  (an \<open>int64\<close> count of nanoseconds) are 64-bit words read as two's complement:
  \<open>+\<close> and \<open>-\<close> wrap around, comparisons are the signed ones (\<open><s\<close>, \<open>\<le>s\<close>).
\<close>

type_synonym int64 = "64 word"
type_synonym Duration = "64 word"

definition Second :: Duration where
  "Second = 1000000000"

definition Hour :: Duration where
  "Hour = 3600 * Second"

section \<open>The operating system: files, directories, permissions\<close>

text \<open>
  The file system the agent runs on, as far as \<open>os.Stat\<close>, \<open>os.ReadFile\<close>,
  \<open>os.WriteFile\<close> and \<open>os.MkdirAll\<close> observe it. The bytes of a file are kept in
  parsed form, as the sequence of chunks the Go decoders find in them: a JSON value
  (\<open>encoding/json\<close>) or a PEM block (\<open>encoding/pem\<close>). The empty file is \<open>[]\<close>.
\<close>

datatype json =
    JNull
  | JBool bool
  | JNumber int
  | JString string
  | JObject "(string \<times> json) list"
  | JOther

text \<open>
  \<open>JNumber\<close> is an integer literal; \<open>JOther\<close> stands for every other JSON value
  (an array, a number with a fraction or an exponent).
  A DER payload is kept as what \<open>crypto/x509\<close> parses out of it: a certificate with the
  three attributes the agent reads, a private key (named by the public key it belongs
  to), or bytes that parse as neither.
\<close>

record x509_Certificate =
  SubjectCommonName :: string
  NotAfter :: int
  PublicKey :: nat

datatype der =
    DerCertificate x509_Certificate
  | DerPrivateKey nat
  | DerGarbage

record pem_Block =
  Type :: string
  Bytes :: der

datatype chunk =
    JsonText json
  | PemBlock pem_Block

type_synonym bytes = "chunk list"

type_synonym FileMode = "32 word"

record regular_file =
  content :: bytes
  perm :: FileMode

text \<open>
  \<open>files\<close> maps a path to the regular file there, \<open>dirs\<close> lists the directories that
  exist (by full path; their ancestors are not tracked), \<open>readonly\<close> lists the paths
  the process may not create or open for writing, and \<open>umask\<close> is the process's file
  mode creation mask.
\<close>

record filesystem =
  files :: "string \<Rightarrow> regular_file option"
  dirs :: "string list"
  readonly :: "string list"
  umask :: FileMode

datatype os_error = ENOENT | EACCES | ENOTDIR | EISDIR

text \<open>
  \<open>filepath.Dir\<close> for a slash-separated path that is already in \<open>Clean\<close> form: all
  but the last element, without the trailing separator; \<open>"."\<close> when there is no
  separator, \<open>"/"\<close> when nothing but separators is left.
\<close>

definition Dir :: "string \<Rightarrow> string" where
  "Dir p =
     (let d = rev (dropWhile (\<lambda>c. c \<noteq> CHR ''/'') (rev p));
          d' = rev (dropWhile (\<lambda>c. c = CHR ''/'') (rev d))
      in if d = [] then ''.'' else if d' = [] then ''/'' else d')"

definition Stat_IsNotExist :: "string \<Rightarrow> filesystem \<Rightarrow> bool" where
  "Stat_IsNotExist p fs = (files fs p = None \<and> p \<notin> set (dirs fs))"

definition ReadFile :: "string \<Rightarrow> filesystem \<Rightarrow> os_error + bytes" where
  "ReadFile p fs =
     (if p \<in> set (dirs fs) then Inl EISDIR
      else case files fs p of None \<Rightarrow> Inl ENOENT | Some f \<Rightarrow> Inr (content f))"

definition MkdirAll :: "string \<Rightarrow> FileMode \<Rightarrow> filesystem \<Rightarrow> os_error + filesystem" where
  "MkdirAll p m fs =
     (if p \<in> set (dirs fs) then Inr fs
      else if files fs p \<noteq> None then Inl ENOTDIR
      else if p \<in> set (readonly fs) then Inl EACCES
      else Inr (fs\<lparr>dirs := p # dirs fs\<rparr>))"

text \<open>
  \<open>os.WriteFile(name, data, perm)\<close> is
  \<open>OpenFile(name, O_WRONLY|O_CREATE|O_TRUNC, perm)\<close>, then \<open>Write(data)\<close>, then
  \<open>Close\<close>. Opening creates a missing file with mode \<open>perm\<close> less the umask, and
  truncates an existing one without touching its mode. Between the two steps the file
  is there and empty. A write to an open file is taken to succeed.
\<close>

definition OpenFile_trunc :: "string \<Rightarrow> FileMode \<Rightarrow> filesystem \<Rightarrow> os_error + filesystem" where
  "OpenFile_trunc p m fs =
     (if p \<in> set (dirs fs) then Inl EISDIR
      else if p \<in> set (readonly fs) then Inl EACCES
      else if Dir p \<notin> set (dirs fs) then Inl ENOENT
      else case files fs p of
             None \<Rightarrow> Inr (fs\<lparr>files := (files fs)(p \<mapsto> \<lparr>content = [], perm = m AND NOT (umask fs)\<rparr>)\<rparr>)
           | Some f \<Rightarrow> Inr (fs\<lparr>files := (files fs)(p \<mapsto> f\<lparr>content := []\<rparr>)\<rparr>))"

definition File_Write :: "string \<Rightarrow> bytes \<Rightarrow> filesystem \<Rightarrow> filesystem" where
  "File_Write p data fs =
     (case files fs p of
        None \<Rightarrow> fs
      | Some f \<Rightarrow> fs\<lparr>files := (files fs)(p \<mapsto> f\<lparr>content := data\<rparr>)\<rparr>)"

definition WriteFile :: "string \<Rightarrow> bytes \<Rightarrow> FileMode \<Rightarrow> filesystem \<Rightarrow> os_error + filesystem" where
  "WriteFile p data m fs =
     (case OpenFile_trunc p m fs of
        Inl e \<Rightarrow> Inl e
      | Inr fs1 \<Rightarrow> Inr (File_Write p data fs1))"

text \<open>The states of the file system another process can observe while \<open>WriteFile\<close> runs.\<close>

definition WriteFile_states :: "string \<Rightarrow> bytes \<Rightarrow> FileMode \<Rightarrow> filesystem \<Rightarrow> filesystem list" where
  "WriteFile_states p data m fs =
     (case OpenFile_trunc p m fs of
        Inl e \<Rightarrow> []
      | Inr fs1 \<Rightarrow> [fs1, File_Write p data fs1])"

text \<open>A mode is owner-only when it grants nothing to group and others (\<open>mode & 0077 = 0\<close>).\<close>

definition owner_only :: "FileMode \<Rightarrow> bool" where
  "owner_only m = (m AND 63 = 0)"

section \<open>internal/config: the configuration record\<close>

record TLSConfig =
  CertFile :: string
  KeyFile :: string
  CAFile :: string
  InsecureSkipVerify :: bool

record Config =
  Bootstrapped :: bool
  OrgID :: string
  AgentID :: string
  InstallToken :: string
  APIBaseURL :: string
  TLSConfig :: TLSConfig
  CollectionInterval :: Duration
  BatchSize :: int64
  MaxBufferSize :: int64
  BufferDir :: string
  HeartbeatInterval :: Duration
  LogLevel :: string
  LogFile :: string
  UpdateEnabled :: bool
  UpdateCheckInterval :: Duration

text \<open>The sentinel errors of \<open>internal/config/errors.go\<close>.\<close>

datatype sentinel =
    ErrConfigNotFound
  | ErrNotBootstrapped
  | ErrInvalidBootstrap
  | ErrInvalidRuntime
  | ErrCertExpired
  | ErrBootstrapInProgress

text \<open>
  A validation error is a sentinel, bare (\<open>return ErrNotBootstrapped\<close>) or wrapped with
  \<open>fmt.Errorf("%w: ...", sentinel)\<close>; the message names the offending field.
\<close>

datatype config_error =
    Bare sentinel
  | Wrapped sentinel string
  | ReadConfigFailed os_error
  | ParseConfigFailed
  | CreateDirFailed os_error
  | WriteConfigFailed os_error

definition ValidateBootstrap :: "Config \<Rightarrow> config_error option" where
  "ValidateBootstrap c =
     (if OrgID c = [] then Some (Wrapped ErrInvalidBootstrap ''org_id is required'')
      else if InstallToken c = [] then Some (Wrapped ErrInvalidBootstrap ''install_token is required'')
      else None)"

definition ValidateRuntime :: "Config \<Rightarrow> config_error option" where
  "ValidateRuntime c =
     (if \<not> Bootstrapped c then Some (Bare ErrNotBootstrapped)
      else if OrgID c = [] then Some (Wrapped ErrInvalidRuntime ''org_id is required'')
      else if AgentID c = [] then Some (Wrapped ErrInvalidRuntime ''agent_id is required'')
      else if APIBaseURL c = [] then Some (Wrapped ErrInvalidRuntime ''api_base_url is required'')
      else if CollectionInterval c <s 10 * Second
        then Some (Wrapped ErrInvalidRuntime ''collection_interval must be at least 10 seconds'')
      else if BatchSize c <s 1 \<or> 1000 <s BatchSize c
        then Some (Wrapped ErrInvalidRuntime ''batch_size must be between 1 and 1000'')
      else None)"

definition MarkBootstrapped :: "Config \<Rightarrow> string \<Rightarrow> string \<Rightarrow> Config" where
  "MarkBootstrapped c agentID apiBaseURL =
     c\<lparr>Bootstrapped := True, AgentID := agentID, APIBaseURL := apiBaseURL, InstallToken := []\<rparr>"

subsection \<open>Serialisation: \<open>json.MarshalIndent\<close> and \<open>json.Unmarshal\<close> on \<open>Config\<close>\<close>

text \<open>
  A Go string is any sequence of bytes, a JSON string is text: \<open>encoding/json\<close> writes
  every byte that is not part of a well-formed UTF-8 sequence as U+FFFD (the bytes
  \<open>EF BF BD\<close> once decoded), and the decoder does the same to what it reads.
  \<open>rune_size s\<close> is the width of the well-formed sequence at the head of \<open>s\<close> as
  \<open>utf8.DecodeRuneInString\<close> finds it, and 0 where that function reports
  \<open>RuneError\<close> with width 1 (or \<open>s\<close> is empty): the ranges of the second byte
  exclude overlong forms, surrogates and code points above U+10FFFF.
\<close>

definition continuation :: "char \<Rightarrow> bool" where
  "continuation c = (128 \<le> (of_char c :: nat) \<and> (of_char c :: nat) \<le> 191)"

definition second_byte :: "nat \<Rightarrow> char \<Rightarrow> bool" where
  "second_byte b0 c =
     (if b0 = 224 then 160 \<le> (of_char c :: nat) \<and> (of_char c :: nat) \<le> 191
      else if b0 = 237 then 128 \<le> (of_char c :: nat) \<and> (of_char c :: nat) \<le> 159
      else if b0 = 240 then 144 \<le> (of_char c :: nat) \<and> (of_char c :: nat) \<le> 191
      else if b0 = 244 then 128 \<le> (of_char c :: nat) \<and> (of_char c :: nat) \<le> 143
      else continuation c)"

fun rune_size :: "string \<Rightarrow> nat" where
  "rune_size [] = 0"
| "rune_size (c # cs) =
     (if (of_char c :: nat) < 128 then 1
      else if 194 \<le> (of_char c :: nat) \<and> (of_char c :: nat) \<le> 223 then
        (case cs of
           c1 # rest \<Rightarrow> if second_byte (of_char c) c1 then 2 else 0
         | [] \<Rightarrow> 0)
      else if 224 \<le> (of_char c :: nat) \<and> (of_char c :: nat) \<le> 239 then
        (case cs of
           c1 # c2 # rest \<Rightarrow> if second_byte (of_char c) c1 \<and> continuation c2 then 3 else 0
         | _ \<Rightarrow> 0)
      else if 240 \<le> (of_char c :: nat) \<and> (of_char c :: nat) \<le> 244 then
        (case cs of
           c1 # c2 # c3 # rest \<Rightarrow>
             if second_byte (of_char c) c1 \<and> continuation c2 \<and> continuation c3 then 4 else 0
         | _ \<Rightarrow> 0)
      else 0)"

text \<open>
  The string a JSON document holds for a Go string: well-formed sequences are kept,
  every other byte becomes U+FFFD. \<open>ValidString\<close> is \<open>utf8.ValidString\<close>.
\<close>

function ToValidUTF8 :: "string \<Rightarrow> string" where
  "ToValidUTF8 s =
     (if s = [] then []
      else if rune_size s = 0 then [CHR 0xEF, CHR 0xBF, CHR 0xBD] @ ToValidUTF8 (tl s)
      else take (rune_size s) s @ ToValidUTF8 (drop (rune_size s) s))"
  by pat_completeness auto
termination
  by (relation "measure length") auto

declare ToValidUTF8.simps [simp del]

function ValidString :: "string \<Rightarrow> bool" where
  "ValidString s =
     (if s = [] then True
      else if rune_size s = 0 then False
      else ValidString (drop (rune_size s) s))"
  by pat_completeness auto
termination
  by (relation "measure length") auto

declare ValidString.simps [simp del]

text \<open>
  The struct tags decide the document: \<open>bootstrapped\<close> and \<open>tls\<close> (a struct, on which
  \<open>omitempty\<close> has no effect) are always written, every other field is left out when
  it holds its zero value (for a string: when it has no bytes).
\<close>

definition omitempty_string :: "string \<Rightarrow> string \<Rightarrow> (string \<times> json) list" where
  "omitempty_string k s = (if s = [] then [] else [(k, JString (ToValidUTF8 s))])"

definition omitempty_int64 :: "string \<Rightarrow> int64 \<Rightarrow> (string \<times> json) list" where
  "omitempty_int64 k n = (if n = 0 then [] else [(k, JNumber (sint n))])"

definition omitempty_bool :: "string \<Rightarrow> bool \<Rightarrow> (string \<times> json) list" where
  "omitempty_bool k b = (if b then [(k, JBool True)] else [])"

definition Marshal_TLSConfig :: "TLSConfig \<Rightarrow> json" where
  "Marshal_TLSConfig t = JObject
     [(''cert_file'', JString (ToValidUTF8 (CertFile t))),
      (''key_file'', JString (ToValidUTF8 (KeyFile t))),
      (''ca_file'', JString (ToValidUTF8 (CAFile t))),
      (''insecure_skip_verify'', JBool (InsecureSkipVerify t))]"

definition Marshal_members :: "Config \<Rightarrow> (string \<times> json) list" where
  "Marshal_members c =
     [(''bootstrapped'', JBool (Bootstrapped c))]
     @ omitempty_string ''org_id'' (OrgID c)
     @ omitempty_string ''agent_id'' (AgentID c)
     @ omitempty_string ''install_token'' (InstallToken c)
     @ omitempty_string ''api_base_url'' (APIBaseURL c)
     @ [(''tls'', Marshal_TLSConfig (TLSConfig c))]
     @ omitempty_int64 ''collection_interval'' (CollectionInterval c)
     @ omitempty_int64 ''batch_size'' (BatchSize c)
     @ omitempty_int64 ''max_buffer_size'' (MaxBufferSize c)
     @ omitempty_string ''buffer_dir'' (BufferDir c)
     @ omitempty_int64 ''heartbeat_interval'' (HeartbeatInterval c)
     @ omitempty_string ''log_level'' (LogLevel c)
     @ omitempty_string ''log_file'' (LogFile c)
     @ omitempty_bool ''update_enabled'' (UpdateEnabled c)
     @ omitempty_int64 ''update_check_interval'' (UpdateCheckInterval c)"

definition Marshal_Config :: "Config \<Rightarrow> bytes" where
  "Marshal_Config c = [JsonText (JObject (Marshal_members c))]"

text \<open>
  The ten strings of a configuration, and the configuration with a function applied to
  each of them.
\<close>

definition Config_strings :: "Config \<Rightarrow> string list" where
  "Config_strings c =
     [OrgID c, AgentID c, InstallToken c, APIBaseURL c, CertFile (TLSConfig c),
      KeyFile (TLSConfig c), CAFile (TLSConfig c), BufferDir c, LogLevel c, LogFile c]"

definition map_strings :: "(string \<Rightarrow> string) \<Rightarrow> Config \<Rightarrow> Config" where
  "map_strings f c =
     c\<lparr>OrgID := f (OrgID c), AgentID := f (AgentID c), InstallToken := f (InstallToken c),
       APIBaseURL := f (APIBaseURL c),
       TLSConfig := (TLSConfig c)\<lparr>CertFile := f (CertFile (TLSConfig c)),
                                  KeyFile := f (KeyFile (TLSConfig c)),
                                  CAFile := f (CAFile (TLSConfig c))\<rparr>,
       BufferDir := f (BufferDir c), LogLevel := f (LogLevel c), LogFile := f (LogFile c)\<rparr>"

text \<open>
  Decoding a JSON value into a field that holds \<open>cur\<close>: \<open>null\<close> leaves the field as
  it is, a value of the wrong kind (or an integer outside \<open>int64\<close>) is an error. A
  string is read with every ill-formed byte replaced by U+FFFD.
\<close>

fun decode_string :: "json \<Rightarrow> string \<Rightarrow> string option" where
  "decode_string JNull cur = Some cur"
| "decode_string (JString s) cur = Some (ToValidUTF8 s)"
| "decode_string v cur = None"

fun decode_bool :: "json \<Rightarrow> bool \<Rightarrow> bool option" where
  "decode_bool JNull cur = Some cur"
| "decode_bool (JBool b) cur = Some b"
| "decode_bool v cur = None"

fun decode_int64 :: "json \<Rightarrow> int64 \<Rightarrow> int64 option" where
  "decode_int64 JNull cur = Some cur"
| "decode_int64 (JNumber n) cur =
     (if - (2 ^ 63) \<le> n \<and> n < 2 ^ 63 then Some (word_of_int n) else None)"
| "decode_int64 v cur = None"

definition Unmarshal_TLS_member :: "string \<times> json \<Rightarrow> TLSConfig \<Rightarrow> TLSConfig option" where
  "Unmarshal_TLS_member m t =
     (case m of (k, v) \<Rightarrow>
        if k = ''cert_file'' then map_option (\<lambda>s. t\<lparr>CertFile := s\<rparr>) (decode_string v (CertFile t))
        else if k = ''key_file'' then map_option (\<lambda>s. t\<lparr>KeyFile := s\<rparr>) (decode_string v (KeyFile t))
        else if k = ''ca_file'' then map_option (\<lambda>s. t\<lparr>CAFile := s\<rparr>) (decode_string v (CAFile t))
        else if k = ''insecure_skip_verify''
          then map_option (\<lambda>b. t\<lparr>InsecureSkipVerify := b\<rparr>) (decode_bool v (InsecureSkipVerify t))
        else Some t)"

fun Unmarshal_TLS_members :: "(string \<times> json) list \<Rightarrow> TLSConfig \<Rightarrow> TLSConfig option" where
  "Unmarshal_TLS_members [] t = Some t"
| "Unmarshal_TLS_members (m # ms) t =
     (case Unmarshal_TLS_member m t of
        None \<Rightarrow> None
      | Some t' \<Rightarrow> Unmarshal_TLS_members ms t')"

fun decode_TLSConfig :: "json \<Rightarrow> TLSConfig \<Rightarrow> TLSConfig option" where
  "decode_TLSConfig JNull cur = Some cur"
| "decode_TLSConfig (JObject ms) cur = Unmarshal_TLS_members ms cur"
| "decode_TLSConfig v cur = None"

definition Unmarshal_member :: "string \<times> json \<Rightarrow> Config \<Rightarrow> Config option" where
  "Unmarshal_member m c =
     (case m of (k, v) \<Rightarrow>
        if k = ''bootstrapped'' then map_option (\<lambda>x. c\<lparr>Bootstrapped := x\<rparr>) (decode_bool v (Bootstrapped c))
        else if k = ''org_id'' then map_option (\<lambda>x. c\<lparr>OrgID := x\<rparr>) (decode_string v (OrgID c))
        else if k = ''agent_id'' then map_option (\<lambda>x. c\<lparr>AgentID := x\<rparr>) (decode_string v (AgentID c))
        else if k = ''install_token''
          then map_option (\<lambda>x. c\<lparr>InstallToken := x\<rparr>) (decode_string v (InstallToken c))
        else if k = ''api_base_url'' then map_option (\<lambda>x. c\<lparr>APIBaseURL := x\<rparr>) (decode_string v (APIBaseURL c))
        else if k = ''tls'' then map_option (\<lambda>x. c\<lparr>TLSConfig := x\<rparr>) (decode_TLSConfig v (TLSConfig c))
        else if k = ''collection_interval''
          then map_option (\<lambda>x. c\<lparr>CollectionInterval := x\<rparr>) (decode_int64 v (CollectionInterval c))
        else if k = ''batch_size'' then map_option (\<lambda>x. c\<lparr>BatchSize := x\<rparr>) (decode_int64 v (BatchSize c))
        else if k = ''max_buffer_size''
          then map_option (\<lambda>x. c\<lparr>MaxBufferSize := x\<rparr>) (decode_int64 v (MaxBufferSize c))
        else if k = ''buffer_dir'' then map_option (\<lambda>x. c\<lparr>BufferDir := x\<rparr>) (decode_string v (BufferDir c))
        else if k = ''heartbeat_interval''
          then map_option (\<lambda>x. c\<lparr>HeartbeatInterval := x\<rparr>) (decode_int64 v (HeartbeatInterval c))
        else if k = ''log_level'' then map_option (\<lambda>x. c\<lparr>LogLevel := x\<rparr>) (decode_string v (LogLevel c))
        else if k = ''log_file'' then map_option (\<lambda>x. c\<lparr>LogFile := x\<rparr>) (decode_string v (LogFile c))
        else if k = ''update_enabled''
          then map_option (\<lambda>x. c\<lparr>UpdateEnabled := x\<rparr>) (decode_bool v (UpdateEnabled c))
        else if k = ''update_check_interval''
          then map_option (\<lambda>x. c\<lparr>UpdateCheckInterval := x\<rparr>) (decode_int64 v (UpdateCheckInterval c))
        else Some c)"

fun Unmarshal_members :: "(string \<times> json) list \<Rightarrow> Config \<Rightarrow> Config option" where
  "Unmarshal_members [] c = Some c"
| "Unmarshal_members (m # ms) c =
     (case Unmarshal_member m c of
        None \<Rightarrow> None
      | Some c' \<Rightarrow> Unmarshal_members ms c')"

text \<open>\<open>var cfg Config\<close>: every field at its zero value.\<close>

definition zero_TLSConfig :: TLSConfig where
  "zero_TLSConfig = \<lparr>CertFile = [], KeyFile = [], CAFile = [], InsecureSkipVerify = False\<rparr>"

definition zero_Config :: Config where
  "zero_Config =
     \<lparr>Bootstrapped = False, OrgID = [], AgentID = [], InstallToken = [], APIBaseURL = [],
      TLSConfig = zero_TLSConfig, CollectionInterval = 0, BatchSize = 0, MaxBufferSize = 0,
      BufferDir = [], HeartbeatInterval = 0, LogLevel = [], LogFile = [],
      UpdateEnabled = False, UpdateCheckInterval = 0\<rparr>"

text \<open>
  \<open>json.Unmarshal(data, &cfg)\<close>: the data must be exactly one JSON value, an object
  (or \<open>null\<close>, which leaves \<open>cfg\<close> at zero); members with unknown keys are skipped.
  Keys are matched exactly.
\<close>

fun Unmarshal_Config :: "bytes \<Rightarrow> Config option" where
  "Unmarshal_Config [JsonText (JObject ms)] = Unmarshal_members ms zero_Config"
| "Unmarshal_Config [JsonText JNull] = Some zero_Config"
| "Unmarshal_Config data = None"

subsection \<open>\<open>Load\<close> and \<open>Save\<close>\<close>

text \<open>The environment maps a variable to its value, \<open>[]\<close> when it is unset.\<close>

type_synonym environ = "string \<Rightarrow> string"

definition Load :: "string \<Rightarrow> environ \<Rightarrow> filesystem \<Rightarrow> config_error + Config" where
  "Load p env fs =
     (case ReadFile p fs of
        Inl e \<Rightarrow> if e = ENOENT then Inl (Bare ErrConfigNotFound) else Inl (ReadConfigFailed e)
      | Inr data \<Rightarrow>
          (case Unmarshal_Config data of
             None \<Rightarrow> Inl ParseConfigFailed
           | Some cfg \<Rightarrow>
               let cfg1 = (if OrgID cfg = [] \<and> env ''ORG_ID'' \<noteq> []
                           then cfg\<lparr>OrgID := env ''ORG_ID''\<rparr> else cfg);
                   cfg2 = (if InstallToken cfg1 = [] \<and> env ''INSTALL_TOKEN'' \<noteq> []
                           then cfg1\<lparr>InstallToken := env ''INSTALL_TOKEN''\<rparr> else cfg1)
               in Inr cfg2))"

text \<open>
  \<open>Save\<close> returns its error (if any) and the file system it leaves behind:
  \<open>MkdirAll(dir, 0755)\<close>, then \<open>os.WriteFile(path, data, 0600)\<close> on the destination
  itself.
\<close>

definition Save :: "Config \<Rightarrow> string \<Rightarrow> filesystem \<Rightarrow> config_error option \<times> filesystem" where
  "Save c p fs =
     (case MkdirAll (Dir p) 493 fs of
        Inl e \<Rightarrow> (Some (CreateDirFailed e), fs)
      | Inr fs1 \<Rightarrow>
          (case WriteFile p (Marshal_Config c) 384 fs1 of
             Inl e \<Rightarrow> (Some (WriteConfigFailed e), fs1)
           | Inr fs2 \<Rightarrow> (None, fs2)))"

text \<open>The file-system states an observer can see while \<open>Save\<close> runs, in order.\<close>

definition Save_states :: "Config \<Rightarrow> string \<Rightarrow> filesystem \<Rightarrow> filesystem list" where
  "Save_states c p fs =
     (case MkdirAll (Dir p) 493 fs of
        Inl e \<Rightarrow> []
      | Inr fs1 \<Rightarrow> fs1 # WriteFile_states p (Marshal_Config c) 384 fs1)"

text \<open>\<open>NewBootstrapConfig\<close> and \<open>DefaultConfig\<close>, with the default paths of a POSIX host.\<close>

definition NewBootstrapConfig :: "environ \<Rightarrow> Config" where
  "NewBootstrapConfig env =
     \<lparr>Bootstrapped = False, OrgID = env ''ORG_ID'', AgentID = [],
      InstallToken = env ''INSTALL_TOKEN'', APIBaseURL = [],
      TLSConfig = \<lparr>CertFile = ''/var/lib/your-agent/certs/agent.crt'',
                   KeyFile = ''/var/lib/your-agent/certs/agent.key'',
                   CAFile = ''/var/lib/your-agent/certs/ca.crt'',
                   InsecureSkipVerify = False\<rparr>,
      CollectionInterval = 60 * Second, BatchSize = 100,
      MaxBufferSize = 100 * 1024 * 1024, BufferDir = ''/var/lib/your-agent/buffer'',
      HeartbeatInterval = 5 * 60 * Second, LogLevel = ''info'',
      LogFile = ''/var/log/your-agent/agent.log'',
      UpdateEnabled = True, UpdateCheckInterval = Hour\<rparr>"

definition DefaultConfig :: "environ \<Rightarrow> Config" where
  "DefaultConfig env =
     (NewBootstrapConfig env)
       \<lparr>Bootstrapped := True, AgentID := ''test-agent-id'',
        APIBaseURL := ''https://api.unitechio.space''\<rparr>"

section \<open>The standard library: PEM, X.509, TLS key pairs, time\<close>

text \<open>
  \<open>pem.Decode\<close>, applied until no block is left, finds the PEM blocks of the data and
  skips everything else.
\<close>

fun pem_Decode_all :: "bytes \<Rightarrow> pem_Block list" where
  "pem_Decode_all [] = []"
| "pem_Decode_all (PemBlock b # rest) = b # pem_Decode_all rest"
| "pem_Decode_all (JsonText j # rest) = pem_Decode_all rest"

datatype tls_error =
    NoCertificatePEM
  | NoKeyPEM
  | MalformedCertificate
  | MalformedPrivateKey
  | KeyMismatch

record tls_Certificate =
  chain :: "der list"
  private_key :: nat

fun x509_ParseCertificate :: "der \<Rightarrow> tls_error + x509_Certificate" where
  "x509_ParseCertificate (DerCertificate x) = Inr x"
| "x509_ParseCertificate d = Inl MalformedCertificate"

definition is_private_key_type :: "string \<Rightarrow> bool" where
  "is_private_key_type t = (t = ''PRIVATE KEY'' \<or> suffix '' PRIVATE KEY'' t)"

text \<open>
  \<open>tls.X509KeyPair(certPEMBlock, keyPEMBlock)\<close>: the \<open>CERTIFICATE\<close> blocks of the first
  argument form the chain, at least one is required; the first block of the second
  argument whose type is \<open>PRIVATE KEY\<close> or ends in \<open>" PRIVATE KEY"\<close> is the key, and one
  is required; the leaf certificate and the key must parse, and the key must belong to
  the leaf's public key.
\<close>

definition X509KeyPair :: "bytes \<Rightarrow> bytes \<Rightarrow> tls_error + tls_Certificate" where
  "X509KeyPair certPEMBlock keyPEMBlock =
     (case map Bytes (filter (\<lambda>b. Type b = ''CERTIFICATE'') (pem_Decode_all certPEMBlock)) of
        [] \<Rightarrow> Inl NoCertificatePEM
      | leaf # rest \<Rightarrow>
          (case find (\<lambda>b. is_private_key_type (Type b)) (pem_Decode_all keyPEMBlock) of
             None \<Rightarrow> Inl NoKeyPEM
           | Some kb \<Rightarrow>
               (case x509_ParseCertificate leaf of
                  Inl e \<Rightarrow> Inl e
                | Inr x \<Rightarrow>
                    (case Bytes kb of
                       DerPrivateKey k \<Rightarrow>
                         if PublicKey x = k then Inr \<lparr>chain = leaf # rest, private_key = k\<rparr>
                         else Inl KeyMismatch
                     | DerCertificate y \<Rightarrow> Inl MalformedPrivateKey
                     | DerGarbage \<Rightarrow> Inl MalformedPrivateKey))))"

text \<open>
  Instants are nanoseconds since the epoch. \<open>time.Until(t)\<close> is \<open>t.Sub(time.Now())\<close>,
  which saturates at the largest and the smallest \<open>Duration\<close>.
\<close>

definition time_Until :: "int \<Rightarrow> int \<Rightarrow> Duration" where
  "time_Until now t = word_of_int (max (- (2 ^ 63)) (min (2 ^ 63 - 1) (t - now)))"

section \<open>internal/identity: the identity manager\<close>

record Manager =
  cfg :: Config
  agentID :: string
  certPath :: string
  keyPath :: string
  caPath :: string

datatype identity_error =
    CreateCertDirFailed os_error
  | ReadCertificateFailed os_error
  | ReadPrivateKeyFailed os_error
  | ParseKeyPairFailed tls_error
  | ParseX509Failed tls_error
  | NoLeafCertificate
  | WriteCertificateFailed os_error
  | WritePrivateKeyFailed os_error
  | WriteCACertFailed os_error

text \<open>
  \<open>NoLeafCertificate\<close> is the index panic of \<open>cert.Certificate[0]\<close> on an empty chain;
  \<open>X509KeyPair\<close> never returns one. Output to the logger is not part of the model.
\<close>

definition NewManager :: "Config \<Rightarrow> filesystem \<Rightarrow> (identity_error + Manager) \<times> filesystem" where
  "NewManager c fs =
     (case MkdirAll (Dir (CertFile (TLSConfig c))) 448 fs of
        Inl e \<Rightarrow> (Inl (CreateCertDirFailed e), fs)
      | Inr fs1 \<Rightarrow>
          (Inr \<lparr>cfg = c, agentID = [], certPath = CertFile (TLSConfig c),
                keyPath = KeyFile (TLSConfig c), caPath = CAFile (TLSConfig c)\<rparr>, fs1))"

definition HasIdentity :: "Manager \<Rightarrow> filesystem \<Rightarrow> bool" where
  "HasIdentity m fs =
     (if Stat_IsNotExist (certPath m) fs then False
      else if Stat_IsNotExist (keyPath m) fs then False
      else if Stat_IsNotExist (caPath m) fs then False
      else True)"

text \<open>\<open>VerifyIdentity\<close> returns its error (if any) and the manager, whose \<open>agentID\<close> it sets.\<close>

definition VerifyIdentity :: "Manager \<Rightarrow> filesystem \<Rightarrow> identity_error option \<times> Manager" where
  "VerifyIdentity m fs =
     (case ReadFile (certPath m) fs of
        Inl e \<Rightarrow> (Some (ReadCertificateFailed e), m)
      | Inr certPEM \<Rightarrow>
          (case ReadFile (keyPath m) fs of
             Inl e \<Rightarrow> (Some (ReadPrivateKeyFailed e), m)
           | Inr keyPEM \<Rightarrow>
               (case X509KeyPair certPEM keyPEM of
                  Inl e \<Rightarrow> (Some (ParseKeyPairFailed e), m)
                | Inr cert \<Rightarrow>
                    (case chain cert of
                       [] \<Rightarrow> (Some NoLeafCertificate, m)
                     | leaf # rest \<Rightarrow>
                         (case x509_ParseCertificate leaf of
                            Inl e \<Rightarrow> (Some (ParseX509Failed e), m)
                          | Inr x509Cert \<Rightarrow>
                              (None, m\<lparr>agentID := SubjectCommonName x509Cert\<rparr>))))))"

text \<open>
  \<open>NeedsRebootstrap\<close> at the instant \<open>now\<close>. The expiry check reads the certificate
  file again and parses it with \<open>tls.X509KeyPair(certPEM, nil)\<close>: the key argument is
  \<open>nil\<close>, the empty byte slice.
\<close>

definition NeedsRebootstrap :: "Manager \<Rightarrow> filesystem \<Rightarrow> int \<Rightarrow> bool \<times> Manager" where
  "NeedsRebootstrap m fs now =
     (if \<not> HasIdentity m fs then (True, m)
      else case VerifyIdentity m fs of
        (Some e, m1) \<Rightarrow> (True, m1)
      | (None, m1) \<Rightarrow>
          (case ReadFile (certPath m1) fs of
             Inl e \<Rightarrow> (True, m1)
           | Inr certPEM \<Rightarrow>
               (case X509KeyPair certPEM [] of
                  Inl e \<Rightarrow> (True, m1)
                | Inr cert \<Rightarrow>
                    (case chain cert of
                       [] \<Rightarrow> (True, m1)
                     | leaf # rest \<Rightarrow>
                         (case x509_ParseCertificate leaf of
                            Inl e \<Rightarrow> (True, m1)
                          | Inr x509Cert \<Rightarrow>
                              if time_Until now (NotAfter x509Cert) <s 24 * Hour
                              then (True, m1)
                              else (False, m1))))))"

subsection \<open>The bootstrap call\<close>

text \<open>
  The request and the response of \<open>/api/v1/agents/bootstrap\<close>. Their fields carry the
  prefixes \<open>req_\<close> and \<open>resp_\<close>, since the names \<open>OrgID\<close>, \<open>AgentID\<close> and others are
  fields of \<open>Config\<close> already. The three PEM strings of the response are their bytes.
\<close>

record BootstrapRequest =
  req_OrgID :: string
  req_InstallToken :: string
  req_Hostname :: string
  req_OS :: string
  req_Arch :: string
  req_AgentVersion :: string

record BootstrapResponse =
  resp_AgentID :: string
  resp_APIBaseURL :: string
  resp_Certificate :: bytes
  resp_PrivateKey :: bytes
  resp_CACert :: bytes
  resp_Policy :: string
  resp_ExpiresAt :: string

text \<open>
  The network and the cancellation context, as the client meets them. \<open>sent\<close> lists the
  requests that went out (URL and body, oldest first); \<open>answer n\<close> is what comes back
  to the request sent after \<open>n\<close> earlier ones: no response at all, or a status with a
  body (\<open>None\<close> when the body does not decode into the expected type). \<open>waits\<close> counts
  the backoff waits so far, and \<open>ctx_done n\<close> tells whether the context is cancelled
  before the wait after \<open>n\<close> earlier ones is over. \<open>valid_url\<close> is the URL check of
  \<open>http.NewRequestWithContext\<close>.
\<close>

datatype 'b http_result =
    TransportError
  | HTTPResponse nat "'b option"

record ('q, 'b) network =
  sent :: "(string \<times> 'q) list"
  answer :: "nat \<Rightarrow> 'b http_result"
  waits :: nat
  ctx_done :: "nat \<Rightarrow> bool"
  valid_url :: "string \<Rightarrow> bool"

definition client_Do :: "string \<Rightarrow> 'q \<Rightarrow> ('q, 'b) network \<Rightarrow> 'b http_result \<times> ('q, 'b) network" where
  "client_Do url body n = (answer n (length (sent n)), n\<lparr>sent := sent n @ [(url, body)]\<rparr>)"

text \<open>\<open>select\<close> between \<open>ctx.Done()\<close> and \<open>time.After(delay)\<close>: \<open>True\<close> when cancelled.\<close>

definition select_Done :: "('q, 'b) network \<Rightarrow> bool \<times> ('q, 'b) network" where
  "select_Done n = (ctx_done n (waits n), n\<lparr>waits := Suc (waits n)\<rparr>)"

record world =
  disk :: filesystem
  wire :: "(BootstrapRequest, BootstrapResponse) network"
  environment :: environ
  hostname :: string
  clock :: int

datatype api_error =
    CreateRequestFailed
  | HTTPRequestFailed
  | BootstrapStatus nat
  | DecodeResponseFailed

definition getHostname :: "world \<Rightarrow> string" where
  "getHostname w = (if hostname w = [] then ''unknown'' else hostname w)"

definition callBootstrapAPI :: "BootstrapRequest \<Rightarrow> world \<Rightarrow> (api_error + BootstrapResponse) \<times> world" where
  "callBootstrapAPI req w =
     (let bootstrapURL =
            (if environment w ''BOOTSTRAP_URL'' \<noteq> [] then environment w ''BOOTSTRAP_URL''
             else ''https://api.unitechio.space/api/v1/agents/bootstrap'')
      in if \<not> valid_url (wire w) bootstrapURL then (Inl CreateRequestFailed, w)
         else case client_Do bootstrapURL req (wire w) of
           (TransportError, n1) \<Rightarrow> (Inl HTTPRequestFailed, w\<lparr>wire := n1\<rparr>)
         | (HTTPResponse status body, n1) \<Rightarrow>
             if status \<noteq> 200 then (Inl (BootstrapStatus status), w\<lparr>wire := n1\<rparr>)
             else (case body of
                     None \<Rightarrow> (Inl DecodeResponseFailed, w\<lparr>wire := n1\<rparr>)
                   | Some resp \<Rightarrow>
                       (Inr (if resp_APIBaseURL resp = []
                             then resp\<lparr>resp_APIBaseURL := ''https://api.unitechio.space''\<rparr>
                             else resp),
                        w\<lparr>wire := n1\<rparr>)))"

subsection \<open>Retry with backoff\<close>

text \<open>
  The fields of \<open>RetryConfig\<close> the loop reads. \<open>Multiplier\<close> (a \<open>float64\<close>) and
  \<open>calculateDelay\<close> (floating point and a random jitter) decide only how long a wait
  lasts, which the model does not measure.
\<close>

record RetryConfig =
  InitialDelay :: Duration
  MaxDelay :: Duration
  MaxAttempts :: int64
  Jitter :: bool

definition DefaultRetryConfig :: RetryConfig where
  "DefaultRetryConfig =
     \<lparr>InitialDelay = 5 * Second, MaxDelay = 5 * 60 * Second, MaxAttempts = 10, Jitter = True\<rparr>"

datatype 'e retry_error =
    RetryCancelled
  | MaxAttemptsExceeded "'e option"

text \<open>
  The loop of \<open>RetryWithBackoff\<close> from \<open>attempt\<close> on, over a state that \<open>fn\<close> and the
  wait act on. \<open>fn\<close> returns its error (\<open>None\<close> for \<open>nil\<close>); \<open>wait\<close> returns
  \<open>True\<close> when the context was cancelled during the delay.
\<close>

function RetryWithBackoff_loop ::
  "RetryConfig \<Rightarrow> ('s \<Rightarrow> 'e option \<times> 's) \<Rightarrow> ('s \<Rightarrow> bool \<times> 's) \<Rightarrow> nat \<Rightarrow> 'e option \<Rightarrow> 's
     \<Rightarrow> 'e retry_error option \<times> 's" where
  "RetryWithBackoff_loop rc fn wait attempt lastErr s =
     (if int attempt < sint (MaxAttempts rc) then
        (case fn s of
           (None, s1) \<Rightarrow> (None, s1)
         | (Some err, s1) \<Rightarrow>
             if int attempt = sint (MaxAttempts rc) - 1
             then (Some (MaxAttemptsExceeded (Some err)), s1)
             else (case wait s1 of
                     (True, s2) \<Rightarrow> (Some RetryCancelled, s2)
                   | (False, s2) \<Rightarrow> RetryWithBackoff_loop rc fn wait (Suc attempt) (Some err) s2))
      else (Some (MaxAttemptsExceeded lastErr), s))"
  by pat_completeness auto
termination
  by (relation "measure (\<lambda>(rc, fn, wait, attempt, lastErr, s). nat (sint (MaxAttempts rc) - int attempt))")
     auto

definition RetryWithBackoff ::
  "RetryConfig \<Rightarrow> ('s \<Rightarrow> 'e option \<times> 's) \<Rightarrow> ('s \<Rightarrow> bool \<times> 's) \<Rightarrow> 's \<Rightarrow> 'e retry_error option \<times> 's" where
  "RetryWithBackoff rc fn wait s = RetryWithBackoff_loop rc fn wait 0 None s"

text \<open>\<open>IsRetryable\<close>: \<open>false\<close> for \<open>nil\<close>, \<open>true\<close> for every error. Nothing calls it.\<close>

definition IsRetryable :: "'e option \<Rightarrow> bool" where
  "IsRetryable err = (if err = None then False else True)"

subsection \<open>Saving the triple and \<open>RunBootstrap\<close>\<close>

definition saveCertificates :: "Manager \<Rightarrow> BootstrapResponse \<Rightarrow> filesystem \<Rightarrow> identity_error option \<times> filesystem" where
  "saveCertificates m resp fs =
     (case WriteFile (certPath m) (resp_Certificate resp) 384 fs of
        Inl e \<Rightarrow> (Some (WriteCertificateFailed e), fs)
      | Inr fs1 \<Rightarrow>
          (case WriteFile (keyPath m) (resp_PrivateKey resp) 384 fs1 of
             Inl e \<Rightarrow> (Some (WritePrivateKeyFailed e), fs1)
           | Inr fs2 \<Rightarrow>
               (case WriteFile (caPath m) (resp_CACert resp) 420 fs2 of
                  Inl e \<Rightarrow> (Some (WriteCACertFailed e), fs2)
                | Inr fs3 \<Rightarrow> (None, fs3))))"

text \<open>The file-system states an observer can see while \<open>saveCertificates\<close> runs, in order.\<close>

definition saveCertificates_states :: "Manager \<Rightarrow> BootstrapResponse \<Rightarrow> filesystem \<Rightarrow> filesystem list" where
  "saveCertificates_states m resp fs =
     (case WriteFile (certPath m) (resp_Certificate resp) 384 fs of
        Inl e \<Rightarrow> WriteFile_states (certPath m) (resp_Certificate resp) 384 fs
      | Inr fs1 \<Rightarrow>
          WriteFile_states (certPath m) (resp_Certificate resp) 384 fs @
          (case WriteFile (keyPath m) (resp_PrivateKey resp) 384 fs1 of
             Inl e \<Rightarrow> []
           | Inr fs2 \<Rightarrow>
               WriteFile_states (keyPath m) (resp_PrivateKey resp) 384 fs1 @
               WriteFile_states (caPath m) (resp_CACert resp) 420 fs2))"

datatype bootstrap_error =
    BootstrapValidationFailed config_error
  | CreateManagerFailed identity_error
  | BootstrapFailedAfterRetries "api_error retry_error"
  | NilResponse
  | SaveCertificatesFailed identity_error



text \<open>
  The closure handed to \<open>RetryWithBackoff\<close> assigns the captured variable \<open>resp\<close>; the
  loop's state is that variable together with the world.
\<close>

definition bootstrap_attempt ::
  "BootstrapRequest \<Rightarrow> BootstrapResponse option \<times> world \<Rightarrow> api_error option \<times> (BootstrapResponse option \<times> world)" where
  "bootstrap_attempt req s =
     (case callBootstrapAPI req (snd s) of
        (Inl e, w1) \<Rightarrow> (Some e, (None, w1))
      | (Inr resp, w1) \<Rightarrow> (None, (Some resp, w1)))"

definition bootstrap_wait ::
  "BootstrapResponse option \<times> world \<Rightarrow> bool \<times> (BootstrapResponse option \<times> world)" where
  "bootstrap_wait s =
     (case select_Done (wire (snd s)) of
        (done, n1) \<Rightarrow> (done, (fst s, (snd s)\<lparr>wire := n1\<rparr>)))"

text \<open>
  \<open>RunBootstrap\<close> returns its error (if any), the configuration behind the pointer
  \<open>cfg\<close> as the call leaves it, and the world. With no error the returned pointer is
  \<open>cfg\<close> itself; with an error it is \<open>nil\<close>. \<open>NilResponse\<close> is the nil dereference
  of \<open>resp\<close> after a retry loop that returned \<open>nil\<close> without a response, which the
  closure never lets happen.
\<close>

definition RunBootstrap :: "Config \<Rightarrow> world \<Rightarrow> bootstrap_error option \<times> Config \<times> world" where
  "RunBootstrap c w =
     (case ValidateBootstrap c of
        Some e \<Rightarrow> (Some (BootstrapValidationFailed e), c, w)
      | None \<Rightarrow>
          (case NewManager c (disk w) of
             (Inl e, fs1) \<Rightarrow> (Some (CreateManagerFailed e), c, w\<lparr>disk := fs1\<rparr>)
           | (Inr manager, fs1) \<Rightarrow>
               (case RetryWithBackoff DefaultRetryConfig
                       (bootstrap_attempt
                          \<lparr>req_OrgID = OrgID c, req_InstallToken = InstallToken c,
                           req_Hostname = getHostname w, req_OS = environment w ''GOOS'',
                           req_Arch = environment w ''GOARCH'', req_AgentVersion = ''1.0.0''\<rparr>)
                       bootstrap_wait (None, w\<lparr>disk := fs1\<rparr>) of
                  (Some e, (r, w2)) \<Rightarrow> (Some (BootstrapFailedAfterRetries e), c, w2)
                | (None, (None, w2)) \<Rightarrow> (Some NilResponse, c, w2)
                | (None, (Some resp, w2)) \<Rightarrow>
                    (case saveCertificates manager resp (disk w2) of
                       (Some e, fs3) \<Rightarrow> (Some (SaveCertificatesFailed e), c, w2\<lparr>disk := fs3\<rparr>)
                     | (None, fs3) \<Rightarrow>
                         (None, MarkBootstrapped c (resp_AgentID resp) (resp_APIBaseURL resp),
                          w2\<lparr>disk := fs3\<rparr>)))))"

section \<open>internal/buffer: the persistent buffer\<close>

text \<open>
  The buffer's directory as \<open>os.ReadDir\<close>, \<open>os.WriteFile\<close> and \<open>os.Remove\<close> meet it.
  \<open>entries\<close> holds what is in the directory, in no particular order; an entry is a
  regular file with its bytes and modification time (nanoseconds), or a subdirectory
  (taken to be empty). A \<open>locked\<close> file is held by another process: opening and
  removing it fail. \<open>listable\<close> and \<open>writable\<close> tell whether the directory can be
  read and whether files can be opened for writing in it; \<open>creatable\<close> tells whether
  \<open>os.MkdirAll\<close> on it succeeds. \<open>free\<close> is the number of bytes the device has room
  for.
\<close>

record entry =
  ename :: string
  isDir :: bool
  data :: string
  mtime :: int
  locked :: bool

record directory =
  entries :: "entry list"
  listable :: bool
  writable :: bool
  creatable :: bool
  free :: nat

record Buffer =
  dir :: string
  maxSize :: int64
  currentSize :: int64

datatype buffer_error =
    CreateBufferDirFailed
  | MarshalDataFailed
  | BufferFull int64 int64
  | WriteBufferFileFailed
  | ReadBufferDirFailed

text \<open>\<open>filepath.Join(dir, name)\<close> for a clean directory path and a plain file name.\<close>

definition Join :: "string \<Rightarrow> string \<Rightarrow> string" where
  "Join d n = d @ ''/'' @ n"

text \<open>\<open>fmt.Sprintf("batch_%d.json", n)\<close>: the decimal digits of \<open>n\<close>, with its sign.\<close>

function decimal :: "nat \<Rightarrow> string" where
  "decimal n = (if n < 10 then [char_of (48 + n)] else decimal (n div 10) @ [char_of (48 + n mod 10)])"
  by pat_completeness auto
termination
  by (relation "measure id") auto

declare decimal.simps [simp del]

definition batch_filename :: "int \<Rightarrow> string" where
  "batch_filename n =
     ''batch_'' @ (if n < 0 then CHR ''-'' # decimal (nat (- n)) else decimal (nat n)) @ ''.json''"

definition file_size :: "entry \<Rightarrow> int64" where
  "file_size e = of_nat (length (data e))"

text \<open>
  \<open>os.WriteFile\<close> into the directory at time \<open>now\<close> is \<open>OpenFile\<close> with \<open>O_CREATE\<close> and
  \<open>O_TRUNC\<close>, then \<open>Write\<close>, then \<open>Close\<close>. The open creates the file empty, or empties
  the file of that name, which gives its bytes back to the device. The write stores
  the bytes the device has room for and fails when those are not all of them; the file
  then stays as the failed write left it. \<open>dir_WriteFile\<close> returns whether the call
  succeeded, and the directory.
\<close>

definition dir_OpenFile_trunc :: "string \<Rightarrow> int \<Rightarrow> directory \<Rightarrow> directory option" where
  "dir_OpenFile_trunc n now d =
     (if \<not> writable d then None
      else case find (\<lambda>e. ename e = n) (entries d) of
        None \<Rightarrow>
          Some (d\<lparr>entries := entries d @
                  [\<lparr>ename = n, isDir = False, data = [], mtime = now, locked = False\<rparr>]\<rparr>)
      | Some old \<Rightarrow>
          if isDir old \<or> locked old then None
          else Some (d\<lparr>entries :=
                       map (\<lambda>e. if ename e = n then e\<lparr>data := [], mtime := now\<rparr> else e) (entries d),
                     free := free d + length (data old)\<rparr>))"

definition dir_File_Write :: "string \<Rightarrow> string \<Rightarrow> int \<Rightarrow> directory \<Rightarrow> bool \<times> directory" where
  "dir_File_Write n bytes now d =
     (length bytes \<le> free d,
      d\<lparr>entries :=
          map (\<lambda>e. if ename e = n then e\<lparr>data := take (free d) bytes, mtime := now\<rparr> else e)
            (entries d),
        free := free d - length (take (free d) bytes)\<rparr>)"

definition dir_WriteFile :: "string \<Rightarrow> string \<Rightarrow> int \<Rightarrow> directory \<Rightarrow> bool \<times> directory" where
  "dir_WriteFile n bytes now d =
     (case dir_OpenFile_trunc n now d of
        None \<Rightarrow> (False, d)
      | Some d1 \<Rightarrow> dir_File_Write n bytes now d1)"

text \<open>\<open>os.ReadDir\<close> returns the entries sorted by file name, compared byte by byte.\<close>

definition ReadDir :: "directory \<Rightarrow> entry list option" where
  "ReadDir d = (if listable d then Some (sort_key ename (entries d)) else None)"

text \<open>
  \<open>os.Remove(path)\<close> of a file of the directory at \<open>dirpath\<close>; the bytes of the file
  go back to the device.
\<close>

definition os_Remove :: "string \<Rightarrow> string \<Rightarrow> directory \<Rightarrow> directory option" where
  "os_Remove dirpath p d =
     (case find (\<lambda>e. Join dirpath (ename e) = p) (entries d) of
        None \<Rightarrow> None
      | Some e \<Rightarrow>
          if locked e then None
          else Some (d\<lparr>entries := filter (\<lambda>e. Join dirpath (ename e) \<noteq> p) (entries d),
                     free := free d + length (data e)\<rparr>))"

text \<open>
  \<open>calculateSize\<close>: the sizes of all files, summed in \<open>int64\<close>; a walk that fails leaves
  \<open>currentSize\<close> as it was.
\<close>

definition calculateSize :: "Buffer \<Rightarrow> directory \<Rightarrow> bool \<times> Buffer" where
  "calculateSize b d =
     (if \<not> listable d then (False, b)
      else (True, b\<lparr>currentSize := sum_list (map file_size (filter (\<lambda>e. \<not> isDir e) (entries d)))\<rparr>))"

definition New :: "string \<Rightarrow> int64 \<Rightarrow> directory \<Rightarrow> buffer_error + Buffer" where
  "New dirpath maxSz d =
     (if \<not> creatable d then Inl CreateBufferDirFailed
      else Inr (snd (calculateSize \<lparr>dir = dirpath, maxSize = maxSz, currentSize = 0\<rparr> d)))"

text \<open>
  \<open>Write\<close> of a value that \<open>marshal\<close> serialises (\<open>None\<close> when \<open>json.Marshal\<close>
  fails), at the instant \<open>now\<close> that \<open>time.Now()\<close> returns. It returns its error (if
  any), the buffer and the directory. When \<open>os.WriteFile\<close> fails, \<open>currentSize\<close> is
  not updated and the directory is as the failed call left it.
\<close>

definition Write ::
  "('a \<Rightarrow> string option) \<Rightarrow> int \<Rightarrow> 'a \<Rightarrow> Buffer \<Rightarrow> directory \<Rightarrow> buffer_error option \<times> Buffer \<times> directory" where
  "Write marshal now v b d =
     (case marshal v of
        None \<Rightarrow> (Some MarshalDataFailed, b, d)
      | Some jsonData \<Rightarrow>
          if maxSize b <s currentSize b + of_nat (length jsonData)
          then (Some (BufferFull (currentSize b) (maxSize b)), b, d)
          else (case dir_WriteFile (batch_filename now) jsonData now d of
                  (False, d1) \<Rightarrow> (Some WriteBufferFileFailed, b, d1)
                | (True, d1) \<Rightarrow>
                    (None, b\<lparr>currentSize := currentSize b + of_nat (length jsonData)\<rparr>, d1)))"

text \<open>\<open>ReadAll\<close>: the bytes of every file that can be read, in the order of the listing.\<close>

definition ReadAll :: "directory \<Rightarrow> buffer_error + string list" where
  "ReadAll d =
     (case ReadDir d of
        None \<Rightarrow> Inl ReadBufferDirFailed
      | Some es \<Rightarrow> Inr (map data (filter (\<lambda>e. \<not> isDir e \<and> \<not> locked e) es)))"

text \<open>
  \<open>Clear\<close> removes every file of the listing, goes on when a removal fails, and sets
  \<open>currentSize\<close> to 0.
\<close>

fun clear_remove :: "string \<Rightarrow> entry list \<Rightarrow> directory \<Rightarrow> directory" where
  "clear_remove dirpath [] d = d"
| "clear_remove dirpath (e # es) d =
     (if isDir e then clear_remove dirpath es d
      else case os_Remove dirpath (Join dirpath (ename e)) d of
        None \<Rightarrow> clear_remove dirpath es d
      | Some d1 \<Rightarrow> clear_remove dirpath es d1)"

definition Clear :: "Buffer \<Rightarrow> directory \<Rightarrow> buffer_error option \<times> Buffer \<times> directory" where
  "Clear b d =
     (case ReadDir d of
        None \<Rightarrow> (Some ReadBufferDirFailed, b, d)
      | Some es \<Rightarrow> (None, b\<lparr>currentSize := 0\<rparr>, clear_remove (dir b) es d))"

subsection \<open>\<open>Prune\<close>\<close>

record fileInfo =
  path :: string
  modTime :: int
  fsize :: int64

definition listFiles :: "string \<Rightarrow> entry list \<Rightarrow> fileInfo list" where
  "listFiles dirpath es =
     map (\<lambda>e. \<lparr>path = Join dirpath (ename e), modTime = mtime e, fsize = file_size e\<rparr>)
         (filter (\<lambda>e. \<not> isDir e) es)"

text \<open>
  The two nested loops that sort \<open>files\<close> by modification time: for each \<open>i\<close>, every
  later \<open>j\<close> whose file is older than the one at \<open>i\<close> is swapped with it.
\<close>

function sort_inner :: "nat \<Rightarrow> nat \<Rightarrow> fileInfo list \<Rightarrow> fileInfo list" where
  "sort_inner i j fs =
     (if j < length fs
      then sort_inner i (Suc j)
             (if modTime (fs ! j) < modTime (fs ! i) then fs[i := fs ! j, j := fs ! i] else fs)
      else fs)"
  by pat_completeness auto
termination
  by (relation "measure (\<lambda>(i, j, fs). length fs - j)") auto

declare sort_inner.simps [simp del]

lemma length_sort_inner: "length (sort_inner i j fs) = length fs"
  by (induction i j fs rule: sort_inner.induct) (subst sort_inner.simps, simp)

function sort_outer :: "nat \<Rightarrow> fileInfo list \<Rightarrow> fileInfo list" where
  "sort_outer i fs =
     (if Suc i < length fs then sort_outer (Suc i) (sort_inner i (Suc i) fs) else fs)"
  by pat_completeness auto
termination
  by (relation "measure (\<lambda>(i, fs). length fs - i)") (simp_all add: length_sort_inner)

declare sort_outer.simps [simp del]

definition sortByModTime :: "fileInfo list \<Rightarrow> fileInfo list" where
  "sortByModTime fs = sort_outer 0 fs"

text \<open>The files of the listing in the order in which \<open>Prune\<close> visits them.\<close>

definition sortedFiles :: "string \<Rightarrow> entry list \<Rightarrow> fileInfo list" where
  "sortedFiles dirpath es = sortByModTime (listFiles dirpath es)"

text \<open>
  The removal loop over the sorted files: it stops as soon as the tracked size is within
  the limit, skips a file whose removal fails, and subtracts the size of each file it
  removes.
\<close>

fun prune_remove :: "fileInfo list \<Rightarrow> Buffer \<Rightarrow> directory \<Rightarrow> Buffer \<times> directory" where
  "prune_remove [] b d = (b, d)"
| "prune_remove (f # fs) b d =
     (if currentSize b \<le>s maxSize b then (b, d)
      else case os_Remove (dir b) (path f) d of
        None \<Rightarrow> prune_remove fs b d
      | Some d1 \<Rightarrow> prune_remove fs (b\<lparr>currentSize := currentSize b - fsize f\<rparr>) d1)"

definition Prune :: "Buffer \<Rightarrow> directory \<Rightarrow> buffer_error option \<times> Buffer \<times> directory" where
  "Prune b d =
     (if currentSize b \<le>s maxSize b then (None, b, d)
      else case ReadDir d of
        None \<Rightarrow> (Some ReadBufferDirFailed, b, d)
      | Some es \<Rightarrow> (None, prune_remove (sortedFiles (dir b) es) b d))"

section \<open>internal/sender: the delivery pipeline\<close>

text \<open>
  A collector's record (\<open>map[string]interface{}\<close>) is a list of JSON members. The
  batch's agent id is the field \<open>batch_AgentID\<close>, \<open>AgentID\<close> being a field of
  \<open>Config\<close>. \<open>json.Marshal\<close> and \<open>json.Unmarshal\<close> on batches are the two functions
  of a codec.
\<close>

type_synonym datum = "(string \<times> json) list"

record TelemetryBatch =
  batch_AgentID :: string
  Timestamp :: int
  Data :: "datum list"

record codec =
  Marshal :: "TelemetryBatch \<Rightarrow> string option"
  Unmarshal :: "string \<Rightarrow> TelemetryBatch option"

record Sender =
  sender_cfg :: Config
  sender_agentID :: string
  buffer :: Buffer
  queue :: "TelemetryBatch list"

text \<open>
  What the sender acts on besides its own fields: the buffer's directory, the network
  with the context, and the clock.
\<close>

record pipeline =
  spool :: directory
  uplink :: "(TelemetryBatch, unit) network"
  time_Now :: int

datatype send_error =
    MarshalBatchFailed
  | CreateTelemetryRequestFailed
  | TelemetryHTTPFailed
  | ServerReturnedStatus nat
  | ContextDone
  | AllRetriesFailed "send_error option"
  | SendAndBufferFailed buffer_error

definition sendBatch :: "codec \<Rightarrow> Sender \<Rightarrow> TelemetryBatch \<Rightarrow> pipeline \<Rightarrow> send_error option \<times> pipeline" where
  "sendBatch cd s batch w =
     (case Marshal cd batch of
        None \<Rightarrow> (Some MarshalBatchFailed, w)
      | Some body \<Rightarrow>
          if \<not> valid_url (uplink w) (APIBaseURL (sender_cfg s) @ ''/api/v1/telemetry'')
          then (Some CreateTelemetryRequestFailed, w)
          else case client_Do (APIBaseURL (sender_cfg s) @ ''/api/v1/telemetry'') batch (uplink w) of
            (TransportError, n1) \<Rightarrow> (Some TelemetryHTTPFailed, w\<lparr>uplink := n1\<rparr>)
          | (HTTPResponse status body, n1) \<Rightarrow>
              if status \<noteq> 200 \<and> status \<noteq> 201
              then (Some (ServerReturnedStatus status), w\<lparr>uplink := n1\<rparr>)
              else (None, w\<lparr>uplink := n1\<rparr>))"

text \<open>The loop of \<open>sendWithRetry\<close> from \<open>attempt\<close> on; \<open>maxRetries\<close> is 5.\<close>

function sendWithRetry_loop ::
  "codec \<Rightarrow> Sender \<Rightarrow> TelemetryBatch \<Rightarrow> nat \<Rightarrow> send_error option \<Rightarrow> pipeline \<Rightarrow> send_error option \<times> pipeline" where
  "sendWithRetry_loop cd s batch attempt lastErr w =
     (if attempt < 5 then
        (case (if 0 < attempt
               then (case select_Done (uplink w) of (done, n1) \<Rightarrow> (done, w\<lparr>uplink := n1\<rparr>))
               else (False, w)) of
           (True, w1) \<Rightarrow> (Some ContextDone, w1)
         | (False, w1) \<Rightarrow>
             (case sendBatch cd s batch w1 of
                (None, w2) \<Rightarrow> (None, w2)
              | (Some err, w2) \<Rightarrow> sendWithRetry_loop cd s batch (Suc attempt) (Some err) w2))
      else (Some (AllRetriesFailed lastErr), w))"
  by pat_completeness auto
termination
  by (relation "measure (\<lambda>(cd, s, batch, attempt, lastErr, w). 5 - attempt)") auto

declare sendWithRetry_loop.simps [simp del]

definition sendWithRetry :: "codec \<Rightarrow> Sender \<Rightarrow> TelemetryBatch \<Rightarrow> pipeline \<Rightarrow> send_error option \<times> pipeline" where
  "sendWithRetry cd s batch w = sendWithRetry_loop cd s batch 0 None w"

text \<open>
  The loop of \<open>flushBuffer\<close> over the buffered batches: \<open>False\<close> when a send failed and
  the function returned early.
\<close>

fun flushBuffer_loop :: "codec \<Rightarrow> Sender \<Rightarrow> string list \<Rightarrow> pipeline \<Rightarrow> bool \<times> pipeline" where
  "flushBuffer_loop cd s [] w = (True, w)"
| "flushBuffer_loop cd s (bytes # rest) w =
     (case Unmarshal cd bytes of
        None \<Rightarrow> flushBuffer_loop cd s rest w
      | Some batch \<Rightarrow>
          (case sendBatch cd s batch w of
             (Some err, w1) \<Rightarrow> (False, w1)
           | (None, w1) \<Rightarrow> flushBuffer_loop cd s rest w1))"

definition flushBuffer :: "codec \<Rightarrow> Sender \<Rightarrow> pipeline \<Rightarrow> Sender \<times> pipeline" where
  "flushBuffer cd s w =
     (case ReadAll (spool w) of
        Inl e \<Rightarrow> (s, w)
      | Inr batches \<Rightarrow>
          if batches = [] then (s, w)
          else (case flushBuffer_loop cd s batches w of
                  (False, w1) \<Rightarrow> (s, w1)
                | (True, w1) \<Rightarrow>
                    (case Clear (buffer s) (spool w1) of
                       (e, b1, d1) \<Rightarrow> (s\<lparr>buffer := b1\<rparr>, w1\<lparr>spool := d1\<rparr>))))"

text \<open>\<open>flush\<close> returns its error (if any), the sender and the pipeline's surroundings.\<close>

definition combined_batch :: "Sender \<Rightarrow> pipeline \<Rightarrow> TelemetryBatch" where
  "combined_batch s w =
     \<lparr>batch_AgentID = sender_agentID s, Timestamp = time_Now w, Data = concat (map Data (queue s))\<rparr>"

definition flush :: "codec \<Rightarrow> Sender \<Rightarrow> pipeline \<Rightarrow> send_error option \<times> Sender \<times> pipeline" where
  "flush cd s w =
     (if queue s = [] then (None, s, w)
      else case sendWithRetry cd s (combined_batch s w) w of
        (Some err, w1) \<Rightarrow>
          (case Write (Marshal cd) (time_Now w1) (combined_batch s w) (buffer s) (spool w1) of
             (Some bufErr, b1, d1) \<Rightarrow>
               (Some (SendAndBufferFailed bufErr), s\<lparr>buffer := b1\<rparr>, w1\<lparr>spool := d1\<rparr>)
           | (None, b1, d1) \<Rightarrow> (Some err, s\<lparr>buffer := b1\<rparr>, w1\<lparr>spool := d1\<rparr>))
      | (None, w1) \<Rightarrow>
          (case flushBuffer cd (s\<lparr>queue := []\<rparr>) w1 of
             (s2, w2) \<Rightarrow> (None, s2, w2)))"

definition Send :: "codec \<Rightarrow> datum \<Rightarrow> Sender \<Rightarrow> pipeline \<Rightarrow> send_error option \<times> Sender \<times> pipeline" where
  "Send cd item s w =
     (let s1 = s\<lparr>queue := queue s @
                 [\<lparr>batch_AgentID = sender_agentID s, Timestamp = time_Now w, Data = [item]\<rparr>]\<rparr>
      in if BatchSize (sender_cfg s1) \<le>s of_nat (length (queue s1)) then flush cd s1 w
         else (None, s1, w))"

section \<open>internal/scheduler: running a collector\<close>

text \<open>
  A collector is its name and what \<open>Collect\<close> returns on this invocation: an error or
  a record. The scheduler writes to its logger and has no sender among its fields; the
  process state pairs the log with the sender that the delivery pipeline would be.
\<close>

record Collector =
  Name :: string
  Collect :: "string + datum"

datatype log_line =
    RunningCollector string
  | CollectorFailed string string
  | CollectorCompleted string
  | CollectedData string datum

record agent_process =
  scheduler_log :: "log_line list"
  delivery :: Sender
  surroundings :: pipeline

definition runCollector :: "Collector \<Rightarrow> agent_process \<Rightarrow> agent_process" where
  "runCollector collector a =
     (let a1 = a\<lparr>scheduler_log := scheduler_log a @ [RunningCollector (Name collector)]\<rparr>
      in case Collect collector of
        Inl err \<Rightarrow>
          a1\<lparr>scheduler_log := scheduler_log a1 @ [CollectorFailed (Name collector) err]\<rparr>
      | Inr item \<Rightarrow>
          a1\<lparr>scheduler_log := scheduler_log a1 @
                [CollectorCompleted (Name collector), CollectedData (Name collector) item]\<rparr>)"

section \<open>cmd/agent: start-up\<close>





subsection \<open>Sample inputs\<close>

text \<open>
  A first-run environment that carries both bootstrap variables, a file system with
  nothing on it (umask 022), and the configuration a successful first bootstrap leaves.
\<close>

definition example_env :: environ where
  "example_env =
     (\<lambda>k. if k = ''ORG_ID'' then ''org-1'' else if k = ''INSTALL_TOKEN'' then ''tok-1'' else [])"

definition empty_fs :: filesystem where
  "empty_fs = \<lparr>files = (\<lambda>p. None), dirs = [], readonly = [], umask = 18\<rparr>"

definition example_runtime_config :: Config where
  "example_runtime_config =
     MarkBootstrapped (NewBootstrapConfig example_env) ''agent-1'' ''https://api.unitechio.space''"

text \<open>
  A healthy identity triple on disk: the agent's certificate, valid for 365 days from
  instant 0, the private key that belongs to it, and the certificate of the issuing CA.
  The key file was created with mode 0644.
\<close>

definition agent_certificate :: x509_Certificate where
  "agent_certificate =
     \<lparr>SubjectCommonName = ''agent-1'', NotAfter = 365 * 24 * 3600 * 1000000000, PublicKey = 7\<rparr>"

definition ca_certificate :: x509_Certificate where
  "ca_certificate =
     \<lparr>SubjectCommonName = ''unitechio-ca'', NotAfter = 3650 * 24 * 3600 * 1000000000, PublicKey = 1\<rparr>"

definition identity_fs :: filesystem where
  "identity_fs =
     \<lparr>files =
        (\<lambda>p. if p = ''/var/lib/your-agent/certs/agent.crt''
               then Some \<lparr>content = [PemBlock \<lparr>Type = ''CERTIFICATE'', Bytes = DerCertificate agent_certificate\<rparr>],
                          perm = 384\<rparr>
             else if p = ''/var/lib/your-agent/certs/agent.key''
               then Some \<lparr>content = [PemBlock \<lparr>Type = ''RSA PRIVATE KEY'', Bytes = DerPrivateKey 7\<rparr>],
                          perm = 420\<rparr>
             else if p = ''/var/lib/your-agent/certs/ca.crt''
               then Some \<lparr>content = [PemBlock \<lparr>Type = ''CERTIFICATE'', Bytes = DerCertificate ca_certificate\<rparr>],
                          perm = 420\<rparr>
             else None),
      dirs = [''/var/lib/your-agent/certs''], readonly = [], umask = 18\<rparr>"

definition example_manager :: Manager where
  "example_manager =
     \<lparr>cfg = example_runtime_config, agentID = [],
      certPath = ''/var/lib/your-agent/certs/agent.crt'',
      keyPath = ''/var/lib/your-agent/certs/agent.key'',
      caPath = ''/var/lib/your-agent/certs/ca.crt''\<rparr>"

text \<open>A file system with the certificate directory and nothing else.\<close>

definition fresh_identity_fs :: filesystem where
  "fresh_identity_fs = empty_fs\<lparr>dirs := [''/var/lib/your-agent/certs'']\<rparr>"

text \<open>A renewed triple, as a bootstrap response carries it.\<close>

definition renewed_response :: BootstrapResponse where
  "renewed_response =
     \<lparr>resp_AgentID = ''agent-1'', resp_APIBaseURL = ''https://api.unitechio.space'',
      resp_Certificate =
        [PemBlock \<lparr>Type = ''CERTIFICATE'',
                   Bytes = DerCertificate (agent_certificate\<lparr>NotAfter := 730 * 24 * 3600 * 1000000000, PublicKey := 8\<rparr>)\<rparr>],
      resp_PrivateKey = [PemBlock \<lparr>Type = ''RSA PRIVATE KEY'', Bytes = DerPrivateKey 8\<rparr>],
      resp_CACert = [PemBlock \<lparr>Type = ''CERTIFICATE'', Bytes = DerCertificate ca_certificate\<rparr>],
      resp_Policy = [], resp_ExpiresAt = ''1971-12-31T00:00:00Z''\<rparr>"

text \<open>
  A first run whose server answers every bootstrap request with 401 Unauthorized, on a
  context that is never cancelled.
\<close>

definition rejecting_world :: world where
  "rejecting_world =
     \<lparr>disk = empty_fs,
      wire = \<lparr>sent = [], answer = (\<lambda>n. HTTPResponse 401 None), waits = 0,
              ctx_done = (\<lambda>n. False), valid_url = (\<lambda>u. True)\<rparr>,
      environment = example_env, hostname = ''host-1'', clock = 0\<rparr>"


text \<open>
  A buffer directory with a backlog of two batches of 150 bytes each, under a limit of
  200 bytes; the same directory with both files held by another process, and with only
  the older file held; and the buffer that \<open>New\<close> makes of each of the three.
\<close>

definition backlog_dir :: directory where
  "backlog_dir =
     \<lparr>entries =
        [\<lparr>ename = ''batch_10.json'', isDir = False, data = replicate 150 (CHR ''x''),
          mtime = 10, locked = False\<rparr>,
         \<lparr>ename = ''batch_9.json'', isDir = False, data = replicate 150 (CHR ''y''),
          mtime = 9, locked = False\<rparr>],
      listable = True, writable = True, creatable = True, free = 1000000\<rparr>"

definition locked_backlog_dir :: directory where
  "locked_backlog_dir =
     backlog_dir\<lparr>entries := map (\<lambda>e. e\<lparr>locked := True\<rparr>) (entries backlog_dir)\<rparr>"

definition held_backlog_dir :: directory where
  "held_backlog_dir =
     backlog_dir\<lparr>entries :=
       map (\<lambda>e. if ename e = ''batch_9.json'' then e\<lparr>locked := True\<rparr> else e) (entries backlog_dir)\<rparr>"

definition backlog_buffer :: Buffer where
  "backlog_buffer = \<lparr>dir = ''/var/lib/your-agent/buffer'', maxSize = 200, currentSize = 300\<rparr>"

definition empty_dir :: directory where
  "empty_dir =
     \<lparr>entries = [], listable = True, writable = True, creatable = True, free = 1000000\<rparr>"


definition empty_buffer :: Buffer where
  "empty_buffer = \<lparr>dir = ''/var/lib/your-agent/buffer'', maxSize = 200, currentSize = 0\<rparr>"

text \<open>
  A sender with one record queued over the backlog, during an outage: every request
  fails in transport and the context is never cancelled. Flushed at instant 20, the
  queue makes the batch \<open>outage_batch\<close>; \<open>outage_batch_json\<close> is the text
  \<open>json.Marshal\<close> gives for it with the clock in UTC, 85 bytes. The codec of the
  example is \<open>json.Marshal\<close> and \<open>json.Unmarshal\<close> on this batch and its text; it is
  applied to nothing else.
\<close>

definition quoted :: "string \<Rightarrow> string" where
  "quoted s = CHR 0x22 # s @ [CHR 0x22]"

definition outage_batch :: TelemetryBatch where
  "outage_batch =
     \<lparr>batch_AgentID = ''agent-1'', Timestamp = 20, Data = [[(''cpu'', JNumber 7)]]\<rparr>"

definition outage_batch_json :: string where
  "outage_batch_json =
     ''{'' @ quoted ''agent_id'' @ '':'' @ quoted ''agent-1'' @ '',''
       @ quoted ''timestamp'' @ '':'' @ quoted ''1970-01-01T00:00:00.00000002Z'' @ '',''
       @ quoted ''data'' @ '':[{'' @ quoted ''cpu'' @ '':7}]}''"

definition outage_codec :: codec where
  "outage_codec =
     \<lparr>Marshal = (\<lambda>b. if b = outage_batch then Some outage_batch_json else None),
      Unmarshal = (\<lambda>bytes. if bytes = outage_batch_json then Some outage_batch else None)\<rparr>"

definition backlog_sender :: Sender where
  "backlog_sender =
     \<lparr>sender_cfg = example_runtime_config, sender_agentID = ''agent-1'', buffer = backlog_buffer,
      queue = [\<lparr>batch_AgentID = ''agent-1'', Timestamp = 19,
                Data = [[(''cpu'', JNumber 7)]]\<rparr>]\<rparr>"

definition outage_pipeline :: pipeline where
  "outage_pipeline =
     \<lparr>spool = backlog_dir,
      uplink = \<lparr>sent = [], answer = (\<lambda>n. TransportError), waits = 0,
                ctx_done = (\<lambda>n. False), valid_url = (\<lambda>u. True)\<rparr>,
      time_Now = 20\<rparr>"




text \<open>A collector that returns a record, and the process it runs in.\<close>

definition cpu_collector :: Collector where
  "cpu_collector = \<lparr>Name = ''cpu'', Collect = Inr [(''cpu'', JNumber 7)]\<rparr>"

definition example_process :: agent_process where
  "example_process =
     \<lparr>scheduler_log = [], delivery = backlog_sender\<lparr>queue := []\<rparr>, surroundings = outage_pipeline\<rparr>"



text \<open>
  A configuration that passes both validators and whose \<open>org_id\<close> is the single byte
  \<open>FF\<close>, which is not UTF-8.
\<close>

definition latin1_config :: Config where
  "latin1_config = example_runtime_config\<lparr>OrgID := [CHR 0xFF], InstallToken := ''tok-1''\<rparr>"

text \<open>The file system after the first configuration was saved.\<close>

definition saved_fs :: filesystem where
  "saved_fs = snd (Save example_runtime_config ''/etc/unitechio/agent/config.json'' empty_fs)"

section \<open>Theorems: configuration\<close>

subsection \<open>\<open>MarkBootstrapped\<close>\<close>

text \<open>
  Claim C9. After \<open>MarkBootstrapped(c, agent_id, api_base_url)\<close> the configuration is
  bootstrapped, carries the given agent id and API base URL, has an empty install token,
  and every other field is as it was.
\<close>

theorem MarkBootstrapped_frame:
  "Bootstrapped (MarkBootstrapped c a u) = True
   \<and> AgentID (MarkBootstrapped c a u) = a
   \<and> APIBaseURL (MarkBootstrapped c a u) = u
   \<and> InstallToken (MarkBootstrapped c a u) = []
   \<and> OrgID (MarkBootstrapped c a u) = OrgID c
   \<and> TLSConfig (MarkBootstrapped c a u) = TLSConfig c
   \<and> CollectionInterval (MarkBootstrapped c a u) = CollectionInterval c
   \<and> BatchSize (MarkBootstrapped c a u) = BatchSize c
   \<and> MaxBufferSize (MarkBootstrapped c a u) = MaxBufferSize c
   \<and> BufferDir (MarkBootstrapped c a u) = BufferDir c
   \<and> HeartbeatInterval (MarkBootstrapped c a u) = HeartbeatInterval c
   \<and> LogLevel (MarkBootstrapped c a u) = LogLevel c
   \<and> LogFile (MarkBootstrapped c a u) = LogFile c
   \<and> UpdateEnabled (MarkBootstrapped c a u) = UpdateEnabled c
   \<and> UpdateCheckInterval (MarkBootstrapped c a u) = UpdateCheckInterval c"
  by (simp add: MarkBootstrapped_def)

subsection \<open>\<open>ValidateRuntime\<close>\<close>

lemma example_runtime_config_valid: "ValidateRuntime example_runtime_config = None"
  by (simp add: ValidateRuntime_def example_runtime_config_def MarkBootstrapped_def
      NewBootstrapConfig_def example_env_def Second_def word_sless_alt)

text \<open>
  Claim C8, as the claim states it, fails: a configuration that is bootstrapped, has an
  agent id and an API base URL, a 60 s collection interval and batch size 100, but an
  empty \<open>org_id\<close>, is rejected.
\<close>

theorem ValidateRuntime_org_id_counterexample:
  "Bootstrapped (example_runtime_config\<lparr>OrgID := []\<rparr>)
   \<and> AgentID (example_runtime_config\<lparr>OrgID := []\<rparr>) \<noteq> []
   \<and> APIBaseURL (example_runtime_config\<lparr>OrgID := []\<rparr>) \<noteq> []
   \<and> 10 * Second \<le>s CollectionInterval (example_runtime_config\<lparr>OrgID := []\<rparr>)
   \<and> 1 \<le>s BatchSize (example_runtime_config\<lparr>OrgID := []\<rparr>)
   \<and> BatchSize (example_runtime_config\<lparr>OrgID := []\<rparr>) \<le>s 1000
   \<and> ValidateRuntime (example_runtime_config\<lparr>OrgID := []\<rparr>)
       = Some (Wrapped ErrInvalidRuntime ''org_id is required'')"
  by (simp add: ValidateRuntime_def example_runtime_config_def MarkBootstrapped_def
      NewBootstrapConfig_def example_env_def Second_def word_sle_eq)

text \<open>
  Claim C8, amended. \<open>ValidateRuntime\<close> succeeds exactly when the configuration is
  bootstrapped, \<open>org_id\<close>, \<open>agent_id\<close> and \<open>api_base_url\<close> are non-empty, the collection
  interval is at least 10 s and the batch size lies in 1..1000. For an accepted
  configuration, batch sizes 1 and 1000 and an interval of exactly 10 s are accepted
  too, while batch sizes 0 and 1001 and an interval of 9 s are rejected.
\<close>

theorem ValidateRuntime_accepts_iff:
  "(ValidateRuntime c = None) =
     (Bootstrapped c \<and> OrgID c \<noteq> [] \<and> AgentID c \<noteq> [] \<and> APIBaseURL c \<noteq> []
      \<and> 10 * Second \<le>s CollectionInterval c \<and> 1 \<le>s BatchSize c \<and> BatchSize c \<le>s 1000)
   \<and> (ValidateRuntime c = None \<longrightarrow>
        ValidateRuntime (c\<lparr>BatchSize := 1\<rparr>) = None
        \<and> ValidateRuntime (c\<lparr>BatchSize := 1000\<rparr>) = None
        \<and> ValidateRuntime (c\<lparr>CollectionInterval := 10 * Second\<rparr>) = None
        \<and> ValidateRuntime (c\<lparr>BatchSize := 0\<rparr>) \<noteq> None
        \<and> ValidateRuntime (c\<lparr>BatchSize := 1001\<rparr>) \<noteq> None
        \<and> ValidateRuntime (c\<lparr>CollectionInterval := 9 * Second\<rparr>) \<noteq> None)"
  by (auto simp: ValidateRuntime_def Second_def word_sless_alt word_sle_eq)

theorem ValidateRuntime_accepts_iff_witness:
  "ValidateRuntime example_runtime_config = None
   \<and> ValidateRuntime (example_runtime_config\<lparr>BatchSize := 1\<rparr>) = None
   \<and> ValidateRuntime (example_runtime_config\<lparr>BatchSize := 1000\<rparr>) = None
   \<and> ValidateRuntime (example_runtime_config\<lparr>CollectionInterval := 10 * Second\<rparr>) = None
   \<and> ValidateRuntime (example_runtime_config\<lparr>BatchSize := 0\<rparr>) \<noteq> None
   \<and> ValidateRuntime (example_runtime_config\<lparr>BatchSize := 1001\<rparr>) \<noteq> None
   \<and> ValidateRuntime (example_runtime_config\<lparr>CollectionInterval := 9 * Second\<rparr>) \<noteq> None"
  using ValidateRuntime_accepts_iff [of example_runtime_config] example_runtime_config_valid
  by blast

subsection \<open>\<open>Save\<close> followed by \<open>Load\<close>\<close>

lemma sint64_range: "- (2 ^ 63) \<le> sint (n::int64) \<and> sint n < 2 ^ 63"
  using sint_ge [of n] sint_lt [of n] by simp

lemma decode_int64_sint: "decode_int64 (JNumber (sint n)) cur = Some n"
  using sint64_range [of n] by simp

subsubsection \<open>Strings as JSON text\<close>

lemma ToValidUTF8_Nil [simp]: "ToValidUTF8 [] = []"
  by (subst ToValidUTF8.simps) simp

lemma ValidString_Nil [simp]: "ValidString []"
  by (subst ValidString.simps) simp

lemma rune_size_le: "rune_size s \<le> length s"
  by (cases s) (auto split: list.splits)

lemma ToValidUTF8_eq_Nil [simp]: "ToValidUTF8 s = [] \<longleftrightarrow> s = []"
proof (cases "s = []")
  case False
  then have "rune_size s = 0 \<or> take (rune_size s) s \<noteq> []" by auto
  then show ?thesis using False by (subst ToValidUTF8.simps) auto
qed simp

text \<open>A valid string is written as it is.\<close>

lemma ValidString_ToValidUTF8: "ValidString s \<Longrightarrow> ToValidUTF8 s = s"
proof (induction s rule: ValidString.induct)
  case (1 s)
  show ?case
  proof (cases "s = []")
    case False
    from "1.prems" False have r: "rune_size s \<noteq> 0"
      by (subst (asm) ValidString.simps) (simp split: if_splits)
    from "1.prems" False r have v: "ValidString (drop (rune_size s) s)"
      by (subst (asm) ValidString.simps) simp
    have "ToValidUTF8 (drop (rune_size s) s) = drop (rune_size s) s"
      using "1.IH" False r v by simp
    then show ?thesis using False r by (subst ToValidUTF8.simps) simp
  qed simp
qed

lemma rune_size_prefix:
  assumes "rune_size s \<noteq> 0"
  shows "rune_size (take (rune_size s) s @ t) = rune_size s"
  using assms
  by (cases s) (auto split: list.splits if_splits)

text \<open>What the encoder writes is valid, so the decoder reads it back unchanged.\<close>

lemma ValidString_ToValidUTF8_result: "ValidString (ToValidUTF8 s)"
proof (induction s rule: ToValidUTF8.induct)
  case (1 s)
  show ?case
  proof (cases "s = []")
    case True then show ?thesis by simp
  next
    case False
    show ?thesis
    proof (cases "rune_size s = 0")
      case True
      have e: "ToValidUTF8 s = CHR 0xEF # CHR 0xBF # CHR 0xBD # ToValidUTF8 (tl s)"
        using False True by (subst ToValidUTF8.simps) simp
      have "ValidString (ToValidUTF8 (tl s))" using "1.IH"(1) False True by simp
      then show ?thesis
        unfolding e by (subst ValidString.simps) (simp add: second_byte_def continuation_def)
    next
      case nz: False
      have e: "ToValidUTF8 s = take (rune_size s) s @ ToValidUTF8 (drop (rune_size s) s)"
        using False nz by (subst ToValidUTF8.simps) simp
      have "ValidString (ToValidUTF8 (drop (rune_size s) s))" using "1.IH"(2) False nz by simp
      then show ?thesis
        unfolding e
        using rune_size_le [of s]
        by (subst ValidString.simps) (simp add: rune_size_prefix [OF nz] nz min_absorb2)
    qed
  qed
qed

lemma ToValidUTF8_idem [simp]: "ToValidUTF8 (ToValidUTF8 s) = ToValidUTF8 s"
  by (rule ValidString_ToValidUTF8) (rule ValidString_ToValidUTF8_result)

lemma ValidString_ascii:
  "list_all (\<lambda>c. (of_char c :: nat) < 128) s \<Longrightarrow> ValidString s"
proof (induction s)
  case (Cons c s)
  then show ?case by (subst ValidString.simps) simp
qed simp

lemma ToValidUTF8_FF: "ToValidUTF8 [CHR 0xFF] = [CHR 0xEF, CHR 0xBF, CHR 0xBD]"
  by (subst ToValidUTF8.simps) simp

lemma map_strings_valid:
  assumes "list_all ValidString (Config_strings c)"
  shows "map_strings ToValidUTF8 c = c"
  using assms by (cases c) (simp add: map_strings_def Config_strings_def ValidString_ToValidUTF8)

lemma example_runtime_config_strings:
  "list_all ValidString (Config_strings example_runtime_config)"
  by (simp add: Config_strings_def example_runtime_config_def MarkBootstrapped_def
      NewBootstrapConfig_def example_env_def ValidString_ascii)

subsubsection \<open>The document read back\<close>

lemma decode_TLSConfig_Marshal:
  "decode_TLSConfig (Marshal_TLSConfig t) cur
     = Some (t\<lparr>CertFile := ToValidUTF8 (CertFile t), KeyFile := ToValidUTF8 (KeyFile t),
               CAFile := ToValidUTF8 (CAFile t)\<rparr>)"
  by (cases t) (simp add: Marshal_TLSConfig_def Unmarshal_TLS_member_def)

text \<open>
  Each member the encoder may write is read back into its field; a member left out
  leaves the field at the zero value it had.
\<close>

lemma Unmarshal_string_member:
  "OrgID c = [] \<Longrightarrow> Unmarshal_members (omitempty_string ''org_id'' s @ ms) c =
     Unmarshal_members ms (c\<lparr>OrgID := ToValidUTF8 s\<rparr>)"
  "AgentID c = [] \<Longrightarrow> Unmarshal_members (omitempty_string ''agent_id'' s @ ms) c =
     Unmarshal_members ms (c\<lparr>AgentID := ToValidUTF8 s\<rparr>)"
  "InstallToken c = [] \<Longrightarrow> Unmarshal_members (omitempty_string ''install_token'' s @ ms) c =
     Unmarshal_members ms (c\<lparr>InstallToken := ToValidUTF8 s\<rparr>)"
  "APIBaseURL c = [] \<Longrightarrow> Unmarshal_members (omitempty_string ''api_base_url'' s @ ms) c =
     Unmarshal_members ms (c\<lparr>APIBaseURL := ToValidUTF8 s\<rparr>)"
  "BufferDir c = [] \<Longrightarrow> Unmarshal_members (omitempty_string ''buffer_dir'' s @ ms) c =
     Unmarshal_members ms (c\<lparr>BufferDir := ToValidUTF8 s\<rparr>)"
  "LogLevel c = [] \<Longrightarrow> Unmarshal_members (omitempty_string ''log_level'' s @ ms) c =
     Unmarshal_members ms (c\<lparr>LogLevel := ToValidUTF8 s\<rparr>)"
  "LogFile c = [] \<Longrightarrow> Unmarshal_members (omitempty_string ''log_file'' s @ ms) c =
     Unmarshal_members ms (c\<lparr>LogFile := ToValidUTF8 s\<rparr>)"
  by (cases c; simp add: omitempty_string_def Unmarshal_member_def)+

lemma Unmarshal_int64_member:
  "CollectionInterval c = 0 \<Longrightarrow>
     Unmarshal_members (omitempty_int64 ''collection_interval'' n @ ms) c =
     Unmarshal_members ms (c\<lparr>CollectionInterval := n\<rparr>)"
  "BatchSize c = 0 \<Longrightarrow> Unmarshal_members (omitempty_int64 ''batch_size'' n @ ms) c =
     Unmarshal_members ms (c\<lparr>BatchSize := n\<rparr>)"
  "MaxBufferSize c = 0 \<Longrightarrow> Unmarshal_members (omitempty_int64 ''max_buffer_size'' n @ ms) c =
     Unmarshal_members ms (c\<lparr>MaxBufferSize := n\<rparr>)"
  "HeartbeatInterval c = 0 \<Longrightarrow>
     Unmarshal_members (omitempty_int64 ''heartbeat_interval'' n @ ms) c =
     Unmarshal_members ms (c\<lparr>HeartbeatInterval := n\<rparr>)"
  "UpdateCheckInterval c = 0 \<Longrightarrow>
     Unmarshal_members (omitempty_int64 ''update_check_interval'' n @ ms) c =
     Unmarshal_members ms (c\<lparr>UpdateCheckInterval := n\<rparr>)"
  by (cases c; simp add: omitempty_int64_def Unmarshal_member_def decode_int64_sint
        del: decode_int64.simps)+

lemma Unmarshal_bool_member:
  "\<not> UpdateEnabled c \<Longrightarrow> Unmarshal_members (omitempty_bool ''update_enabled'' b @ ms) c =
     Unmarshal_members ms (c\<lparr>UpdateEnabled := b\<rparr>)"
  by (cases c; simp add: omitempty_bool_def Unmarshal_member_def)

lemma Unmarshal_fixed_member:
  "Unmarshal_members ((''bootstrapped'', JBool b) # ms) c =
     Unmarshal_members ms (c\<lparr>Bootstrapped := b\<rparr>)"
  "Unmarshal_members ((''tls'', Marshal_TLSConfig t) # ms) c =
     Unmarshal_members ms
       (c\<lparr>TLSConfig := t\<lparr>CertFile := ToValidUTF8 (CertFile t), KeyFile := ToValidUTF8 (KeyFile t),
                           CAFile := ToValidUTF8 (CAFile t)\<rparr>\<rparr>)"
  by (simp_all add: Unmarshal_member_def decode_TLSConfig_Marshal)

lemma Unmarshal_last_member:
  "UpdateCheckInterval c = 0 \<Longrightarrow>
     Unmarshal_members (omitempty_int64 ''update_check_interval'' n) c =
     Some (c\<lparr>UpdateCheckInterval := n\<rparr>)"
  using Unmarshal_int64_member(5) [of c n "[]"] by simp

lemma Unmarshal_Marshal_members:
  "Unmarshal_members (Marshal_members c) zero_Config = Some (map_strings ToValidUTF8 c)"
proof -
  have "Unmarshal_members (Marshal_members c) zero_Config = Some
     (zero_Config\<lparr>Bootstrapped := Bootstrapped c, OrgID := ToValidUTF8 (OrgID c),
        AgentID := ToValidUTF8 (AgentID c), InstallToken := ToValidUTF8 (InstallToken c),
        APIBaseURL := ToValidUTF8 (APIBaseURL c),
        TLSConfig := (TLSConfig c)\<lparr>CertFile := ToValidUTF8 (CertFile (TLSConfig c)),
                                   KeyFile := ToValidUTF8 (KeyFile (TLSConfig c)),
                                   CAFile := ToValidUTF8 (CAFile (TLSConfig c))\<rparr>,
        CollectionInterval := CollectionInterval c, BatchSize := BatchSize c,
        MaxBufferSize := MaxBufferSize c, BufferDir := ToValidUTF8 (BufferDir c),
        HeartbeatInterval := HeartbeatInterval c, LogLevel := ToValidUTF8 (LogLevel c),
        LogFile := ToValidUTF8 (LogFile c),
        UpdateEnabled := UpdateEnabled c, UpdateCheckInterval := UpdateCheckInterval c\<rparr>)"
    unfolding Marshal_members_def
    by (simp add: Unmarshal_fixed_member Unmarshal_string_member Unmarshal_int64_member
          Unmarshal_bool_member Unmarshal_last_member zero_Config_def Unmarshal_members.simps(1)
        del: Unmarshal_members.simps)
  then show ?thesis by (cases c) (simp add: zero_Config_def map_strings_def)
qed

lemma Unmarshal_Marshal_Config:
  "Unmarshal_Config (Marshal_Config c) = Some (map_strings ToValidUTF8 c)"
  by (simp add: Marshal_Config_def Unmarshal_Marshal_members)

lemma map_strings_empty:
  "OrgID (map_strings ToValidUTF8 c) = [] \<longleftrightarrow> OrgID c = []"
  "InstallToken (map_strings ToValidUTF8 c) = [] \<longleftrightarrow> InstallToken c = []"
  by (simp_all add: map_strings_def)

lemma OpenFile_trunc_files:
  "OpenFile_trunc p m fs = Inr fs1 \<Longrightarrow> files fs1 p \<noteq> None \<and> p \<notin> set (dirs fs1)"
  by (auto simp: OpenFile_trunc_def split: if_splits option.splits)

lemma WriteFile_ReadFile:
  "WriteFile p d m fs = Inr fs' \<Longrightarrow> ReadFile p fs' = Inr d"
  by (auto simp: WriteFile_def File_Write_def ReadFile_def dest!: OpenFile_trunc_files
      split: sum.splits option.splits)

lemma Save_ok_ReadFile:
  "fst (Save c p fs) = None \<Longrightarrow> ReadFile p (snd (Save c p fs)) = Inr (Marshal_Config c)"
  by (auto simp: Save_def dest: WriteFile_ReadFile split: sum.splits)

lemma example_Save_ok:
  "fst (Save example_runtime_config ''/etc/unitechio/agent/config.json'' empty_fs) = None"
  by (simp add: Save_def MkdirAll_def WriteFile_def OpenFile_trunc_def Dir_def empty_fs_def)

text \<open>\<open>Load\<close> of what a successful \<open>Save\<close> wrote.\<close>

lemma Load_Save:
  assumes "fst (Save c p fs) = None"
  shows "Load p env (snd (Save c p fs)) =
           Inr ((map_strings ToValidUTF8 c)
                  \<lparr>OrgID := (if OrgID c = [] then env ''ORG_ID'' else ToValidUTF8 (OrgID c)),
                   InstallToken := (if InstallToken c = [] then env ''INSTALL_TOKEN''
                                    else ToValidUTF8 (InstallToken c))\<rparr>)"
proof -
  let ?c = "map_strings ToValidUTF8 c"
  have rd: "ReadFile p (snd (Save c p fs)) = Inr (Marshal_Config c)"
    using assms by (rule Save_ok_ReadFile)
  have "Load p env (snd (Save c p fs)) =
      Inr (let cfg1 = (if OrgID ?c = [] \<and> env ''ORG_ID'' \<noteq> []
                       then ?c\<lparr>OrgID := env ''ORG_ID''\<rparr> else ?c)
           in (if InstallToken cfg1 = [] \<and> env ''INSTALL_TOKEN'' \<noteq> []
               then cfg1\<lparr>InstallToken := env ''INSTALL_TOKEN''\<rparr> else cfg1))"
    by (simp add: Load_def rd Unmarshal_Marshal_Config Let_def)
  also have "\<dots> =
      Inr (?c\<lparr>OrgID := (if OrgID c = [] then env ''ORG_ID'' else ToValidUTF8 (OrgID c)),
             InstallToken := (if InstallToken c = [] then env ''INSTALL_TOKEN''
                              else ToValidUTF8 (InstallToken c))\<rparr>)"
    by (cases c) (simp add: Let_def map_strings_def)
  finally show ?thesis .
qed

lemma Save_ok_any_file_system:
  "fst (Save c p fs) = None \<Longrightarrow> fst (Save c' p fs) = None"
  by (auto simp: Save_def WriteFile_def File_Write_def split: sum.splits)

lemma example_latin1:
  "ValidateBootstrap latin1_config = None" "ValidateRuntime latin1_config = None"
  "OrgID latin1_config = [CHR 0xFF]"
  by (simp_all add: latin1_config_def ValidateBootstrap_def ValidateRuntime_def
      example_runtime_config_def MarkBootstrapped_def NewBootstrapConfig_def Second_def
      word_sless_alt)

text \<open>
  Claim C7, amended. A successful \<open>Save\<close> followed by \<open>Load\<close> of the same path yields
  the saved configuration with every byte of its strings that is not well-formed UTF-8
  replaced by U+FFFD, an empty \<open>org_id\<close> replaced by \<open>ORG_ID\<close> and an empty
  \<open>install_token\<close> replaced by \<open>INSTALL_TOKEN\<close> of the environment. So, on a
  configuration whose strings are valid UTF-8, it is the identity when the
  configuration passes \<open>ValidateBootstrap\<close>, and when it passes \<open>ValidateRuntime\<close> and
  its install token is non-empty or \<open>INSTALL_TOKEN\<close> is unset.
\<close>

theorem Save_Load_overlay:
  assumes "fst (Save c p fs) = None"
  shows "Load p env (snd (Save c p fs)) =
           Inr ((map_strings ToValidUTF8 c)
                  \<lparr>OrgID := (if OrgID c = [] then env ''ORG_ID'' else ToValidUTF8 (OrgID c)),
                   InstallToken := (if InstallToken c = [] then env ''INSTALL_TOKEN''
                                    else ToValidUTF8 (InstallToken c))\<rparr>)
         \<and> (list_all ValidString (Config_strings c) \<longrightarrow>
              Load p env (snd (Save c p fs)) =
                Inr (c\<lparr>OrgID := (if OrgID c = [] then env ''ORG_ID'' else OrgID c),
                       InstallToken :=
                         (if InstallToken c = [] then env ''INSTALL_TOKEN'' else InstallToken c)\<rparr>))
         \<and> (list_all ValidString (Config_strings c) \<and> ValidateBootstrap c = None
              \<longrightarrow> Load p env (snd (Save c p fs)) = Inr c)
         \<and> (list_all ValidString (Config_strings c) \<and> ValidateRuntime c = None
              \<and> (InstallToken c \<noteq> [] \<or> env ''INSTALL_TOKEN'' = [])
              \<longrightarrow> Load p env (snd (Save c p fs)) = Inr c)"
proof -
  note ld = Load_Save [OF assms, of env]
  have v: "Load p env (snd (Save c p fs)) =
                Inr (c\<lparr>OrgID := (if OrgID c = [] then env ''ORG_ID'' else OrgID c),
                       InstallToken :=
                         (if InstallToken c = [] then env ''INSTALL_TOKEN'' else InstallToken c)\<rparr>)"
    if "list_all ValidString (Config_strings c)"
  proof -
    have "ToValidUTF8 (OrgID c) = OrgID c" "ToValidUTF8 (InstallToken c) = InstallToken c"
      using that by (simp_all add: Config_strings_def ValidString_ToValidUTF8)
    then show ?thesis using ld map_strings_valid [OF that] by simp
  qed
  have b: "ValidateBootstrap c = None \<Longrightarrow> OrgID c \<noteq> [] \<and> InstallToken c \<noteq> []"
    by (simp add: ValidateBootstrap_def split: if_splits)
  have r: "ValidateRuntime c = None \<Longrightarrow> OrgID c \<noteq> []"
    by (simp add: ValidateRuntime_def split: if_splits)
  have i1: "Load p env (snd (Save c p fs)) = Inr c"
    if "list_all ValidString (Config_strings c) \<and> ValidateBootstrap c = None"
    using v that b by (cases c) auto
  have i2: "Load p env (snd (Save c p fs)) = Inr c"
    if "list_all ValidString (Config_strings c) \<and> ValidateRuntime c = None
              \<and> (InstallToken c \<noteq> [] \<or> env ''INSTALL_TOKEN'' = [])"
    using v that r by (cases c) auto
  show ?thesis using ld v i1 i2 by blast
qed

theorem Save_Load_overlay_witness:
  "fst (Save example_runtime_config ''/etc/unitechio/agent/config.json'' empty_fs) = None
   \<and> list_all ValidString (Config_strings example_runtime_config)
   \<and> ValidateRuntime example_runtime_config = None
   \<and> Load ''/etc/unitechio/agent/config.json'' (\<lambda>k. [])
        (snd (Save example_runtime_config ''/etc/unitechio/agent/config.json'' empty_fs))
      = Inr example_runtime_config"
proof -
  have "Load ''/etc/unitechio/agent/config.json'' (\<lambda>k. [])
        (snd (Save example_runtime_config ''/etc/unitechio/agent/config.json'' empty_fs))
      = Inr example_runtime_config"
    using Save_Load_overlay [OF example_Save_ok, of "\<lambda>k. []"]
      example_runtime_config_valid example_runtime_config_strings
    by blast
  then show ?thesis
    using example_Save_ok example_runtime_config_valid example_runtime_config_strings by simp
qed

text \<open>
  Claim C7, as the claim states it, fails: the configuration of a first bootstrap passes
  \<open>ValidateRuntime\<close> with its install token cleared; saved and loaded again while
  \<open>INSTALL_TOKEN\<close> is still set, it comes back with the token filled in.
\<close>

theorem Save_Load_counterexample:
  "ValidateRuntime example_runtime_config = None
   \<and> fst (Save example_runtime_config ''/etc/unitechio/agent/config.json'' empty_fs) = None
   \<and> Load ''/etc/unitechio/agent/config.json'' example_env
        (snd (Save example_runtime_config ''/etc/unitechio/agent/config.json'' empty_fs))
      \<noteq> Inr example_runtime_config"
proof -
  have t: "InstallToken example_runtime_config = []"
    by (simp add: example_runtime_config_def MarkBootstrapped_def)
  have "InstallToken (projr (Load ''/etc/unitechio/agent/config.json'' example_env
        (snd (Save example_runtime_config ''/etc/unitechio/agent/config.json'' empty_fs))))
       = ''tok-1''"
    by (simp add: Load_Save [OF example_Save_ok] t example_env_def)
  then have "Load ''/etc/unitechio/agent/config.json'' example_env
        (snd (Save example_runtime_config ''/etc/unitechio/agent/config.json'' empty_fs))
      \<noteq> Inr example_runtime_config"
    using t by auto
  then show ?thesis using example_Save_ok example_runtime_config_valid by simp
qed

text \<open>
  Nor is it the identity on a configuration that passes both validators and holds a
  string that is not UTF-8: an \<open>org_id\<close> of the single byte \<open>FF\<close> comes back as the
  three bytes of U+FFFD, whatever the environment.
\<close>

lemma Save_Load_invalid_utf8:
  "ValidateBootstrap latin1_config = None
   \<and> ValidateRuntime latin1_config = None
   \<and> \<not> ValidString (OrgID latin1_config)
   \<and> fst (Save latin1_config ''/etc/unitechio/agent/config.json'' empty_fs) = None
   \<and> OrgID (projr (Load ''/etc/unitechio/agent/config.json'' env
        (snd (Save latin1_config ''/etc/unitechio/agent/config.json'' empty_fs))))
      = [CHR 0xEF, CHR 0xBF, CHR 0xBD]
   \<and> Load ''/etc/unitechio/agent/config.json'' env
        (snd (Save latin1_config ''/etc/unitechio/agent/config.json'' empty_fs))
      \<noteq> Inr latin1_config"
proof -
  have s: "fst (Save latin1_config ''/etc/unitechio/agent/config.json'' empty_fs) = None"
    using example_Save_ok by (rule Save_ok_any_file_system)
  have nv: "\<not> ValidString (OrgID latin1_config)"
    unfolding example_latin1(3) by (subst ValidString.simps) simp
  have o: "OrgID (projr (Load ''/etc/unitechio/agent/config.json'' env
        (snd (Save latin1_config ''/etc/unitechio/agent/config.json'' empty_fs))))
      = [CHR 0xEF, CHR 0xBF, CHR 0xBD]"
    by (simp add: Load_Save [OF s] example_latin1(3) ToValidUTF8_FF)
  then have "Load ''/etc/unitechio/agent/config.json'' env
        (snd (Save latin1_config ''/etc/unitechio/agent/config.json'' empty_fs))
      \<noteq> Inr latin1_config"
    using example_latin1(3) by auto
  then show ?thesis using example_latin1(1,2) nv s o by simp
qed

section \<open>Theorems: persistence of the configuration and the triple\<close>

lemma owner_only_0600: "owner_only (384 AND NOT u)"
proof -
  have "(384 AND NOT u) AND 63 = (384 AND 63) AND NOT u"
    by (simp add: ac_simps)
  also have "\<dots> = 0" by simp
  finally show ?thesis by (simp add: owner_only_def)
qed

lemma OpenFile_trunc_result:
  assumes "OpenFile_trunc p m fs = Inr fs1"
  shows "dirs fs1 = dirs fs \<and> readonly fs1 = readonly fs \<and> umask fs1 = umask fs
         \<and> (\<forall>q. q \<noteq> p \<longrightarrow> files fs1 q = files fs q)
         \<and> map_option content (files fs1 p) = Some []
         \<and> map_option perm (files fs1 p)
             = Some (case files fs p of None \<Rightarrow> m AND NOT (umask fs) | Some f \<Rightarrow> perm f)"
  using assms by (auto simp: OpenFile_trunc_def split: if_splits option.splits)

text \<open>
  A successful \<open>WriteFile\<close> passes through exactly one intermediate state, in which the
  destination is empty; it touches no other path, leaves the data in the destination,
  and gives a new file the requested mode less the umask while an old file keeps its
  mode.
\<close>

lemma WriteFile_result:
  assumes "WriteFile p d m fs = Inr fs2"
  shows "\<exists>fs1. WriteFile_states p d m fs = [fs1, fs2]
           \<and> map_option content (files fs1 p) = Some []
           \<and> (\<forall>q. q \<noteq> p \<longrightarrow> files fs1 q = files fs q)"
    and "dirs fs2 = dirs fs \<and> readonly fs2 = readonly fs \<and> umask fs2 = umask fs"
    and "\<forall>q. q \<noteq> p \<longrightarrow> files fs2 q = files fs q"
    and "map_option content (files fs2 p) = Some d"
    and "map_option perm (files fs2 p)
             = Some (case files fs p of None \<Rightarrow> m AND NOT (umask fs) | Some f \<Rightarrow> perm f)"
proof -
  obtain fs1 where o: "OpenFile_trunc p m fs = Inr fs1" and w: "fs2 = File_Write p d fs1"
    using assms by (auto simp: WriteFile_def split: sum.splits)
  note r = OpenFile_trunc_result [OF o]
  obtain f where f: "files fs1 p = Some f" using r by (cases "files fs1 p") auto
  have fs2: "fs2 = fs1\<lparr>files := (files fs1)(p \<mapsto> f\<lparr>content := d\<rparr>)\<rparr>"
    using w f by (simp add: File_Write_def)
  show "\<exists>fs1. WriteFile_states p d m fs = [fs1, fs2]
           \<and> map_option content (files fs1 p) = Some []
           \<and> (\<forall>q. q \<noteq> p \<longrightarrow> files fs1 q = files fs q)"
    using o w r by (simp add: WriteFile_states_def)
  show "dirs fs2 = dirs fs \<and> readonly fs2 = readonly fs \<and> umask fs2 = umask fs"
    using r fs2 by simp
  show "\<forall>q. q \<noteq> p \<longrightarrow> files fs2 q = files fs q" using r fs2 by simp
  show "map_option content (files fs2 p) = Some d" using fs2 by simp
  show "map_option perm (files fs2 p)
             = Some (case files fs p of None \<Rightarrow> m AND NOT (umask fs) | Some f \<Rightarrow> perm f)"
    using r f fs2 by simp
qed

lemma MkdirAll_files:
  "MkdirAll d m fs = Inr fs1 \<Longrightarrow> files fs1 = files fs \<and> umask fs1 = umask fs"
  by (auto simp: MkdirAll_def split: if_splits)

lemma Save_in_place:
  assumes "fst (Save c p fs) = None"
  shows "(\<exists>fs1 fs2. Save_states c p fs = [fs1, fs2, snd (Save c p fs)]
            \<and> map_option content (files fs2 p) = Some [])
         \<and> (\<forall>s \<in> set (Save_states c p fs). \<forall>q. q \<noteq> p \<longrightarrow> files s q = files fs q)
         \<and> map_option content (files (snd (Save c p fs)) p) = Some (Marshal_Config c)
         \<and> map_option perm (files (snd (Save c p fs)) p)
             = Some (case files fs p of None \<Rightarrow> 384 AND NOT (umask fs) | Some f \<Rightarrow> perm f)"
proof -
  obtain fs1 fs3 where mk: "MkdirAll (Dir p) 493 fs = Inr fs1"
    and wr: "WriteFile p (Marshal_Config c) 384 fs1 = Inr fs3"
    and sv: "Save c p fs = (None, fs3)"
    using assms by (auto simp: Save_def split: sum.splits)
  have mf: "files fs1 = files fs" and mu: "umask fs1 = umask fs"
    using MkdirAll_files [OF mk] by simp_all
  note w = WriteFile_result [OF wr]
  from w(1) obtain fs2 where st: "WriteFile_states p (Marshal_Config c) 384 fs1 = [fs2, fs3]"
    and tr: "map_option content (files fs2 p) = Some []"
    and ot: "\<forall>q. q \<noteq> p \<longrightarrow> files fs2 q = files fs1 q" by blast
  have states: "Save_states c p fs = [fs1, fs2, fs3]"
    by (simp add: Save_states_def mk st)
  show ?thesis
    using states tr ot w(3,4) w(5) [unfolded mf mu] by (simp add: sv mf)
qed

lemma saveCertificates_in_place:
  assumes ok: "fst (saveCertificates m resp fs) = None"
    and d: "distinct [certPath m, keyPath m, caPath m]"
  shows "(\<exists>s1 s2 s3 s4 s5.
            saveCertificates_states m resp fs = [s1, s2, s3, s4, s5, snd (saveCertificates m resp fs)]
            \<and> map_option content (files s1 (certPath m)) = Some []
            \<and> map_option content (files s3 (keyPath m)) = Some []
            \<and> map_option content (files s5 (caPath m)) = Some [])
         \<and> (\<forall>s \<in> set (saveCertificates_states m resp fs).
               \<forall>q. q \<noteq> certPath m \<and> q \<noteq> keyPath m \<and> q \<noteq> caPath m \<longrightarrow> files s q = files fs q)
         \<and> map_option content (files (snd (saveCertificates m resp fs)) (certPath m))
             = Some (resp_Certificate resp)
         \<and> map_option content (files (snd (saveCertificates m resp fs)) (keyPath m))
             = Some (resp_PrivateKey resp)
         \<and> map_option content (files (snd (saveCertificates m resp fs)) (caPath m))
             = Some (resp_CACert resp)
         \<and> map_option perm (files (snd (saveCertificates m resp fs)) (certPath m))
             = Some (case files fs (certPath m) of None \<Rightarrow> 384 AND NOT (umask fs) | Some f \<Rightarrow> perm f)
         \<and> map_option perm (files (snd (saveCertificates m resp fs)) (keyPath m))
             = Some (case files fs (keyPath m) of None \<Rightarrow> 384 AND NOT (umask fs) | Some f \<Rightarrow> perm f)
         \<and> map_option perm (files (snd (saveCertificates m resp fs)) (caPath m))
             = Some (case files fs (caPath m) of None \<Rightarrow> 420 AND NOT (umask fs) | Some f \<Rightarrow> perm f)"
proof -
  obtain fs1 fs2 fs3 where
    w1: "WriteFile (certPath m) (resp_Certificate resp) 384 fs = Inr fs1"
    and w2: "WriteFile (keyPath m) (resp_PrivateKey resp) 384 fs1 = Inr fs2"
    and w3: "WriteFile (caPath m) (resp_CACert resp) 420 fs2 = Inr fs3"
    and sv: "saveCertificates m resp fs = (None, fs3)"
    using ok by (auto simp: saveCertificates_def split: sum.splits)
  note r1 = WriteFile_result [OF w1]
  note r2 = WriteFile_result [OF w2]
  note r3 = WriteFile_result [OF w3]
  from r1(1) obtain s1 where
    st1: "WriteFile_states (certPath m) (resp_Certificate resp) 384 fs = [s1, fs1]"
    and t1: "map_option content (files s1 (certPath m)) = Some []"
    and o1: "\<forall>q. q \<noteq> certPath m \<longrightarrow> files s1 q = files fs q" by blast
  from r2(1) obtain s3 where
    st2: "WriteFile_states (keyPath m) (resp_PrivateKey resp) 384 fs1 = [s3, fs2]"
    and t2: "map_option content (files s3 (keyPath m)) = Some []"
    and o2: "\<forall>q. q \<noteq> keyPath m \<longrightarrow> files s3 q = files fs1 q" by blast
  from r3(1) obtain s5 where
    st3: "WriteFile_states (caPath m) (resp_CACert resp) 420 fs2 = [s5, fs3]"
    and t3: "map_option content (files s5 (caPath m)) = Some []"
    and o3: "\<forall>q. q \<noteq> caPath m \<longrightarrow> files s5 q = files fs2 q" by blast
  have states: "saveCertificates_states m resp fs = [s1, fs1, s3, fs2, s5, fs3]"
    by (simp add: saveCertificates_states_def w1 w2 st1 st2 st3)
  have ne: "certPath m \<noteq> keyPath m" "certPath m \<noteq> caPath m" "keyPath m \<noteq> caPath m"
    using d by auto
  have u1: "umask fs1 = umask fs" and u2: "umask fs2 = umask fs" using r1(2) r2(2) by simp_all
  have other: "\<forall>s \<in> set [s1, fs1, s3, fs2, s5, fs3].
               \<forall>q. q \<noteq> certPath m \<and> q \<noteq> keyPath m \<and> q \<noteq> caPath m \<longrightarrow> files s q = files fs q"
    using o1 o2 o3 r1(3) r2(3) r3(3) by simp
  have c1: "map_option content (files fs3 (certPath m)) = Some (resp_Certificate resp)"
    using r1(4) r2(3) r3(3) ne by simp
  have c2: "map_option content (files fs3 (keyPath m)) = Some (resp_PrivateKey resp)"
    using r2(4) r3(3) ne by simp
  have p1: "map_option perm (files fs3 (certPath m))
             = Some (case files fs (certPath m) of None \<Rightarrow> 384 AND NOT (umask fs) | Some f \<Rightarrow> perm f)"
    using r1(5) r2(3) r3(3) ne by simp
  have p2: "map_option perm (files fs3 (keyPath m))
             = Some (case files fs (keyPath m) of None \<Rightarrow> 384 AND NOT (umask fs) | Some f \<Rightarrow> perm f)"
    using r2(5) [unfolded u1] r1(3) r3(3) ne by simp
  have p3: "map_option perm (files fs3 (caPath m))
             = Some (case files fs (caPath m) of None \<Rightarrow> 420 AND NOT (umask fs) | Some f \<Rightarrow> perm f)"
    using r3(5) [unfolded u2] r1(3) r2(3) ne by simp
  show ?thesis
    unfolding sv states snd_conv
    using t1 t2 t3 other c1 c2 r3(4) p1 p2 p3 by blast
qed

text \<open>
  Claim C4, amended. \<open>Save\<close> and the persistence of the triple write each file in
  place: a successful \<open>Save\<close> passes through the state after \<open>MkdirAll\<close> and a state
  in which the configuration file is empty before it holds the new data; a successful
  \<open>saveCertificates\<close> (on three distinct paths) passes through states in which the
  certificate, the key and the CA file in turn are empty. No state on the way differs
  from the initial one at any other path, so no temporary file is ever created and
  nothing is renamed. A file that did not exist gets mode 0600 (configuration,
  certificate, key) or 0644 (CA) less the umask, which for the first three is
  owner-only; a file that existed keeps its mode.
\<close>

theorem persistence_in_place:
  "(fst (Save c p fs) = None \<longrightarrow>
      (\<exists>fs1 fs2. Save_states c p fs = [fs1, fs2, snd (Save c p fs)]
         \<and> map_option content (files fs2 p) = Some [])
      \<and> (\<forall>s \<in> set (Save_states c p fs). \<forall>q. q \<noteq> p \<longrightarrow> files s q = files fs q)
      \<and> map_option content (files (snd (Save c p fs)) p) = Some (Marshal_Config c)
      \<and> map_option perm (files (snd (Save c p fs)) p)
          = Some (case files fs p of None \<Rightarrow> 384 AND NOT (umask fs) | Some f \<Rightarrow> perm f)
      \<and> (files fs p = None \<longrightarrow>
           (\<exists>mo. map_option perm (files (snd (Save c p fs)) p) = Some mo \<and> owner_only mo)))
   \<and> (fst (saveCertificates m resp fs) = None \<and> distinct [certPath m, keyPath m, caPath m] \<longrightarrow>
      (\<exists>s1 s2 s3 s4 s5.
         saveCertificates_states m resp fs = [s1, s2, s3, s4, s5, snd (saveCertificates m resp fs)]
         \<and> map_option content (files s1 (certPath m)) = Some []
         \<and> map_option content (files s3 (keyPath m)) = Some []
         \<and> map_option content (files s5 (caPath m)) = Some [])
      \<and> (\<forall>s \<in> set (saveCertificates_states m resp fs).
            \<forall>q. q \<noteq> certPath m \<and> q \<noteq> keyPath m \<and> q \<noteq> caPath m \<longrightarrow> files s q = files fs q)
      \<and> map_option content (files (snd (saveCertificates m resp fs)) (certPath m))
          = Some (resp_Certificate resp)
      \<and> map_option content (files (snd (saveCertificates m resp fs)) (keyPath m))
          = Some (resp_PrivateKey resp)
      \<and> map_option content (files (snd (saveCertificates m resp fs)) (caPath m))
          = Some (resp_CACert resp)
      \<and> map_option perm (files (snd (saveCertificates m resp fs)) (certPath m))
          = Some (case files fs (certPath m) of None \<Rightarrow> 384 AND NOT (umask fs) | Some f \<Rightarrow> perm f)
      \<and> map_option perm (files (snd (saveCertificates m resp fs)) (keyPath m))
          = Some (case files fs (keyPath m) of None \<Rightarrow> 384 AND NOT (umask fs) | Some f \<Rightarrow> perm f)
      \<and> map_option perm (files (snd (saveCertificates m resp fs)) (caPath m))
          = Some (case files fs (caPath m) of None \<Rightarrow> 420 AND NOT (umask fs) | Some f \<Rightarrow> perm f)
      \<and> (files fs (certPath m) = None \<longrightarrow>
           (\<exists>mo. map_option perm (files (snd (saveCertificates m resp fs)) (certPath m)) = Some mo
                 \<and> owner_only mo))
      \<and> (files fs (keyPath m) = None \<longrightarrow>
           (\<exists>mo. map_option perm (files (snd (saveCertificates m resp fs)) (keyPath m)) = Some mo
                 \<and> owner_only mo)))"
proof (intro conjI impI)
  assume a: "fst (Save c p fs) = None"
  note s = Save_in_place [OF a]
  show "\<exists>fs1 fs2. Save_states c p fs = [fs1, fs2, snd (Save c p fs)]
         \<and> map_option content (files fs2 p) = Some []" using s by blast
  show "\<forall>s \<in> set (Save_states c p fs). \<forall>q. q \<noteq> p \<longrightarrow> files s q = files fs q" using s by blast
  show "map_option content (files (snd (Save c p fs)) p) = Some (Marshal_Config c)" using s by blast
  show pm: "map_option perm (files (snd (Save c p fs)) p)
          = Some (case files fs p of None \<Rightarrow> 384 AND NOT (umask fs) | Some f \<Rightarrow> perm f)"
    using s by blast
  show "\<exists>mo. map_option perm (files (snd (Save c p fs)) p) = Some mo \<and> owner_only mo"
    if "files fs p = None"
    using pm that owner_only_0600 [of "umask fs"] by auto
next
  assume "fst (saveCertificates m resp fs) = None \<and> distinct [certPath m, keyPath m, caPath m]"
  then have a: "fst (saveCertificates m resp fs) = None"
    and d: "distinct [certPath m, keyPath m, caPath m]" by blast+
  note s = saveCertificates_in_place [OF a d]
  show "\<exists>s1 s2 s3 s4 s5.
         saveCertificates_states m resp fs = [s1, s2, s3, s4, s5, snd (saveCertificates m resp fs)]
         \<and> map_option content (files s1 (certPath m)) = Some []
         \<and> map_option content (files s3 (keyPath m)) = Some []
         \<and> map_option content (files s5 (caPath m)) = Some []" using s by blast
  show "\<forall>s \<in> set (saveCertificates_states m resp fs).
            \<forall>q. q \<noteq> certPath m \<and> q \<noteq> keyPath m \<and> q \<noteq> caPath m \<longrightarrow> files s q = files fs q"
    using s by blast
  show "map_option content (files (snd (saveCertificates m resp fs)) (certPath m))
          = Some (resp_Certificate resp)" using s by blast
  show "map_option content (files (snd (saveCertificates m resp fs)) (keyPath m))
          = Some (resp_PrivateKey resp)" using s by blast
  show "map_option content (files (snd (saveCertificates m resp fs)) (caPath m))
          = Some (resp_CACert resp)" using s by blast
  show p1: "map_option perm (files (snd (saveCertificates m resp fs)) (certPath m))
          = Some (case files fs (certPath m) of None \<Rightarrow> 384 AND NOT (umask fs) | Some f \<Rightarrow> perm f)"
    using s by blast
  show p2: "map_option perm (files (snd (saveCertificates m resp fs)) (keyPath m))
          = Some (case files fs (keyPath m) of None \<Rightarrow> 384 AND NOT (umask fs) | Some f \<Rightarrow> perm f)"
    using s by blast
  show "map_option perm (files (snd (saveCertificates m resp fs)) (caPath m))
          = Some (case files fs (caPath m) of None \<Rightarrow> 420 AND NOT (umask fs) | Some f \<Rightarrow> perm f)"
    using s by blast
  show "\<exists>mo. map_option perm (files (snd (saveCertificates m resp fs)) (certPath m)) = Some mo
                 \<and> owner_only mo" if "files fs (certPath m) = None"
    using p1 that owner_only_0600 [of "umask fs"] by auto
  show "\<exists>mo. map_option perm (files (snd (saveCertificates m resp fs)) (keyPath m)) = Some mo
                 \<and> owner_only mo" if "files fs (keyPath m) = None"
    using p2 that owner_only_0600 [of "umask fs"] by auto
qed

lemma example_saveCertificates_fresh:
  "fst (saveCertificates example_manager renewed_response fresh_identity_fs) = None"
  by (simp add: saveCertificates_def example_manager_def fresh_identity_fs_def empty_fs_def
      WriteFile_def OpenFile_trunc_def File_Write_def Dir_def)

lemma example_paths_distinct:
  "distinct [certPath example_manager, keyPath example_manager, caPath example_manager]"
  by (simp add: example_manager_def)

theorem persistence_in_place_witness:
  "fst (Save example_runtime_config ''/etc/unitechio/agent/config.json'' empty_fs) = None
   \<and> fst (saveCertificates example_manager renewed_response fresh_identity_fs) = None
   \<and> distinct [certPath example_manager, keyPath example_manager, caPath example_manager]
   \<and> files empty_fs ''/etc/unitechio/agent/config.json'' = None
   \<and> files fresh_identity_fs (certPath example_manager) = None
   \<and> files fresh_identity_fs (keyPath example_manager) = None
   \<and> map_option content
        (files (snd (Save example_runtime_config ''/etc/unitechio/agent/config.json'' empty_fs))
           ''/etc/unitechio/agent/config.json'')
       = Some (Marshal_Config example_runtime_config)
   \<and> (\<exists>mo. map_option perm
        (files (snd (Save example_runtime_config ''/etc/unitechio/agent/config.json'' empty_fs))
           ''/etc/unitechio/agent/config.json'') = Some mo \<and> owner_only mo)
   \<and> map_option content
        (files (snd (saveCertificates example_manager renewed_response fresh_identity_fs))
           (keyPath example_manager))
       = Some (resp_PrivateKey renewed_response)
   \<and> (\<exists>mo. map_option perm
        (files (snd (saveCertificates example_manager renewed_response fresh_identity_fs))
           (keyPath example_manager)) = Some mo \<and> owner_only mo)"
proof -
  have e: "files empty_fs ''/etc/unitechio/agent/config.json'' = None"
    by (simp add: empty_fs_def)
  have f: "files fresh_identity_fs (certPath example_manager) = None"
    and g: "files fresh_identity_fs (keyPath example_manager) = None"
    by (simp_all add: fresh_identity_fs_def empty_fs_def)
  show ?thesis
    using persistence_in_place [of example_runtime_config "''/etc/unitechio/agent/config.json''"
        empty_fs example_manager renewed_response]
      persistence_in_place [of example_runtime_config "''/etc/unitechio/agent/config.json''"
        fresh_identity_fs example_manager renewed_response]
      example_Save_ok example_saveCertificates_fresh example_paths_distinct e f g
    by blast
qed

text \<open>
  Claim C4, as the claim states it, fails. While the renewed triple is saved over the
  healthy one, the first state an observer can see has the certificate file (which held
  a certificate) empty; the key file, which existed with mode 0644, still has mode 0644
  afterwards, which is not owner-only. While a changed configuration is saved over the
  first one, the second state an observer can see has the configuration file empty.
\<close>

theorem persistence_not_atomic_counterexample:
  "fst (saveCertificates example_manager renewed_response identity_fs) = None
   \<and> map_option content (files identity_fs ''/var/lib/your-agent/certs/agent.crt'')
       = Some [PemBlock \<lparr>Type = ''CERTIFICATE'', Bytes = DerCertificate agent_certificate\<rparr>]
   \<and> map_option content
        (files (saveCertificates_states example_manager renewed_response identity_fs ! 0)
           ''/var/lib/your-agent/certs/agent.crt'') = Some []
   \<and> map_option perm
        (files (snd (saveCertificates example_manager renewed_response identity_fs))
           ''/var/lib/your-agent/certs/agent.key'') = Some 420
   \<and> \<not> owner_only 420
   \<and> fst (Save (example_runtime_config\<lparr>LogLevel := ''debug''\<rparr>)
            ''/etc/unitechio/agent/config.json'' saved_fs) = None
   \<and> map_option content (files saved_fs ''/etc/unitechio/agent/config.json'')
       = Some (Marshal_Config example_runtime_config)
   \<and> map_option content
        (files (Save_states (example_runtime_config\<lparr>LogLevel := ''debug''\<rparr>)
                  ''/etc/unitechio/agent/config.json'' saved_fs ! 1)
           ''/etc/unitechio/agent/config.json'') = Some []"
  by (simp add: saveCertificates_def saveCertificates_states_def example_manager_def
      identity_fs_def WriteFile_def WriteFile_states_def OpenFile_trunc_def File_Write_def Dir_def
      owner_only_def saved_fs_def Save_def Save_states_def MkdirAll_def empty_fs_def)

section \<open>Theorems: identity and bootstrap\<close>

subsection \<open>\<open>NeedsRebootstrap\<close>\<close>

text \<open>With no key block to find, \<open>X509KeyPair\<close> fails whatever the certificate data is.\<close>

lemma X509KeyPair_nil_key: "X509KeyPair certPEM [] \<noteq> Inr c"
  by (simp add: X509KeyPair_def split: list.splits)

lemma NeedsRebootstrap_always: "fst (NeedsRebootstrap m fs now) = True"
  using X509KeyPair_nil_key
  by (auto simp: NeedsRebootstrap_def split: prod.splits option.splits sum.splits list.splits)

lemma example_HasIdentity: "HasIdentity example_manager identity_fs"
  by (simp add: HasIdentity_def Stat_IsNotExist_def example_manager_def identity_fs_def)

lemma example_VerifyIdentity:
  "VerifyIdentity example_manager identity_fs = (None, example_manager\<lparr>agentID := ''agent-1''\<rparr>)"
  by (simp add: VerifyIdentity_def ReadFile_def example_manager_def identity_fs_def
      X509KeyPair_def is_private_key_type_def agent_certificate_def suffix_def)

lemma example_not_expiring:
  "\<not> (time_Until 0 (NotAfter agent_certificate) <s 24 * Hour)"
  by (simp add: time_Until_def agent_certificate_def Hour_def Second_def word_sless_alt)

text \<open>
  Claim C1. On the healthy triple (all three files present, the key belongs to the
  certificate, the certificate is valid for another 365 days) \<open>HasIdentity\<close> holds,
  \<open>VerifyIdentity\<close> succeeds and the certificate is not within 24 hours of expiry,
  and yet \<open>NeedsRebootstrap\<close> returns true, where the claim says false.
\<close>

theorem NeedsRebootstrap_healthy_triple:
  "HasIdentity example_manager identity_fs
   \<and> fst (VerifyIdentity example_manager identity_fs) = None
   \<and> \<not> (time_Until 0 (NotAfter agent_certificate) <s 24 * Hour)
   \<and> fst (NeedsRebootstrap example_manager identity_fs 0) = True"
  using example_HasIdentity example_not_expiring NeedsRebootstrap_always
  by (simp add: example_VerifyIdentity)

subsection \<open>The retry loop of the bootstrap\<close>

text \<open>
  Claim C2. With valid bootstrap credentials and a server that answers every request
  with 401 Unauthorized, \<open>RunBootstrap\<close> gives up only after the tenth request, with
  the error of exhausted attempts, where the claim says the first 401 ends the loop;
  and \<open>IsRetryable\<close> holds of the 401 error.
\<close>

theorem RunBootstrap_retries_401:
  "fst (RunBootstrap (NewBootstrapConfig example_env) rejecting_world)
     = Some (BootstrapFailedAfterRetries (MaxAttemptsExceeded (Some (BootstrapStatus 401))))
   \<and> length (sent (wire (snd (snd (RunBootstrap (NewBootstrapConfig example_env) rejecting_world)))))
       = 10
   \<and> IsRetryable (Some (BootstrapStatus 401))"
  by (simp add: RunBootstrap_def ValidateBootstrap_def NewBootstrapConfig_def example_env_def
     NewManager_def MkdirAll_def Dir_def rejecting_world_def empty_fs_def RetryWithBackoff_def
     DefaultRetryConfig_def bootstrap_attempt_def bootstrap_wait_def callBootstrapAPI_def
     client_Do_def select_Done_def getHostname_def IsRetryable_def)

subsection \<open>\<open>RunBootstrap\<close> without credentials\<close>














section \<open>Theorems: the persistent buffer\<close>

subsection \<open>The sort of \<open>Prune\<close>\<close>

lemma mset_sort_inner: "i < j \<Longrightarrow> mset (sort_inner i j fs) = mset fs"
proof (induction i j fs rule: sort_inner.induct)
  case (1 i j fs)
  show ?case
  proof (cases "j < length fs")
    case True
    with 1 have "mset (sort_inner i j fs)
        = mset (if modTime (fs ! j) < modTime (fs ! i) then fs[i := fs ! j, j := fs ! i] else fs)"
      by (subst sort_inner.simps) simp
    also have "\<dots> = mset fs"
      using True 1(2) mset_swap [of j fs i] by simp
    finally show ?thesis .
  next
    case False
    then show ?thesis by (subst sort_inner.simps) simp
  qed
qed

lemma take_sort_inner: "i < j \<Longrightarrow> take i (sort_inner i j fs) = take i fs"
proof (induction i j fs rule: sort_inner.induct)
  case (1 i j fs)
  show ?case
  proof (cases "j < length fs")
    case True
    with 1 have "take i (sort_inner i j fs)
        = take i (if modTime (fs ! j) < modTime (fs ! i) then fs[i := fs ! j, j := fs ! i] else fs)"
      by (subst sort_inner.simps) simp
    also have "\<dots> = take i fs"
      using 1(2) by simp
    finally show ?thesis .
  next
    case False
    then show ?thesis by (subst sort_inner.simps) simp
  qed
qed

lemma sort_inner_min:
  "i < j \<Longrightarrow> i < length fs \<Longrightarrow> \<forall>k. i < k \<and> k < j \<longrightarrow> modTime (fs ! i) \<le> modTime (fs ! k) \<Longrightarrow>
     \<forall>k. i < k \<and> k < length fs \<longrightarrow> modTime (sort_inner i j fs ! i) \<le> modTime (sort_inner i j fs ! k)"
proof (induction i j fs rule: sort_inner.induct)
  case (1 i j fs)
  show ?case
  proof (cases "j < length fs")
    case True
    let ?fs2 = "if modTime (fs ! j) < modTime (fs ! i) then fs[i := fs ! j, j := fs ! i] else fs"
    have eq: "sort_inner i j fs = sort_inner i (Suc j) ?fs2"
      using True by (subst sort_inner.simps) simp
    have len: "length ?fs2 = length fs" by simp
    have inv: "\<forall>k. i < k \<and> k < Suc j \<longrightarrow> modTime (?fs2 ! i) \<le> modTime (?fs2 ! k)"
    proof (intro allI impI)
      fix k assume k: "i < k \<and> k < Suc j"
      show "modTime (?fs2 ! i) \<le> modTime (?fs2 ! k)"
      proof (cases "modTime (fs ! j) < modTime (fs ! i)")
        case sw: True
        show ?thesis
        proof (cases "k = j")
          case True
          then show ?thesis using sw "1.prems" \<open>j < length fs\<close> by simp
        next
          case False
          then have "k < j" using k by simp
          then have "modTime (fs ! i) \<le> modTime (fs ! k)" using k "1.prems"(3) by simp
          then have "modTime (fs ! j) \<le> modTime (fs ! k)" using sw by simp
          then show ?thesis using sw k \<open>k < j\<close> "1.prems"(1,2) \<open>j < length fs\<close> by simp
        qed
      next
        case ns: False
        show ?thesis
        proof (cases "k = j")
          case True
          then show ?thesis using ns by simp
        next
          case False
          then have "k < j" using k by simp
          then show ?thesis using ns k "1.prems"(3) by simp
        qed
      qed
    qed
    have "\<forall>k. i < k \<and> k < length ?fs2 \<longrightarrow>
            modTime (sort_inner i (Suc j) ?fs2 ! i) \<le> modTime (sort_inner i (Suc j) ?fs2 ! k)"
      using "1.IH" [OF True] "1.prems"(1,2) inv len by simp
    then show ?thesis using eq len by simp
  next
    case False
    then have "sort_inner i j fs = fs" by (subst sort_inner.simps) simp
    moreover have "\<forall>k. i < k \<and> k < length fs \<longrightarrow> modTime (fs ! i) \<le> modTime (fs ! k)"
      using "1.prems"(3) False by simp
    ultimately show ?thesis by simp
  qed
qed

lemma mset_sort_outer: "mset (sort_outer i fs) = mset fs"
proof (induction i fs rule: sort_outer.induct)
  case (1 i fs)
  show ?case
  proof (cases "Suc i < length fs")
    case True
    then have "sort_outer i fs = sort_outer (Suc i) (sort_inner i (Suc i) fs)"
      by (subst sort_outer.simps) simp
    then show ?thesis using 1 True by (simp add: mset_sort_inner)
  next
    case False
    then show ?thesis by (subst sort_outer.simps) simp
  qed
qed

lemma sorted_sort_outer:
  "sorted (map modTime (take i fs)) \<Longrightarrow>
   \<forall>x \<in> set (take i fs). \<forall>y \<in> set (drop i fs). modTime x \<le> modTime y \<Longrightarrow>
   sorted (map modTime (sort_outer i fs))"
proof (induction i fs rule: sort_outer.induct)
  case (1 i fs)
  show ?case
  proof (cases "Suc i < length fs")
    case True
    let ?fs' = "sort_inner i (Suc i) fs"
    have eq: "sort_outer i fs = sort_outer (Suc i) ?fs'"
      using True by (subst sort_outer.simps) simp
    have len: "length ?fs' = length fs" by (rule length_sort_inner)
    have tk: "take i ?fs' = take i fs" by (simp add: take_sort_inner)
    have "mset (take i ?fs') + mset (drop i ?fs') = mset (take i fs) + mset (drop i fs)"
      by (metis append_take_drop_id mset_append mset_sort_inner lessI)
    then have md: "mset (drop i ?fs') = mset (drop i fs)" using tk by simp
    then have sd: "set (drop i ?fs') = set (drop i fs)" by (rule mset_eq_setD)
    have ii: "?fs' ! i \<in> set (drop i ?fs')"
      using True len by (metis Cons_nth_drop_Suc Suc_lessD list.set_intros(1))
    have mn: "\<forall>k. i < k \<and> k < length fs \<longrightarrow> modTime (?fs' ! i) \<le> modTime (?fs' ! k)"
      using sort_inner_min [of i "Suc i" fs] True by simp
    have t1: "take (Suc i) ?fs' = take i fs @ [?fs' ! i]"
      using True len tk by (metis Suc_lessD take_Suc_conv_app_nth)
    have s1: "sorted (map modTime (take (Suc i) ?fs'))"
      using "1.prems" ii sd by (simp add: t1 sorted_append)
    have s2: "\<forall>x \<in> set (take (Suc i) ?fs'). \<forall>y \<in> set (drop (Suc i) ?fs'). modTime x \<le> modTime y"
    proof (intro ballI)
      fix x y assume x: "x \<in> set (take (Suc i) ?fs')" and y: "y \<in> set (drop (Suc i) ?fs')"
      from y obtain k where k: "k < length ?fs' - Suc i" "y = ?fs' ! (Suc i + k)"
        by (auto simp: in_set_conv_nth)
      have yd: "y \<in> set (drop i ?fs')" using y by (meson in_set_dropD set_drop_subset_set_drop Suc_n_not_le_n nat_le_linear subsetD)
      from x have "x \<in> set (take i fs) \<or> x = ?fs' ! i" by (auto simp: t1)
      then show "modTime x \<le> modTime y"
      proof
        assume "x \<in> set (take i fs)"
        then show ?thesis using "1.prems"(2) yd sd by blast
      next
        assume "x = ?fs' ! i"
        then show ?thesis using mn k len by simp
      qed
    qed
    show ?thesis using "1.IH" [OF True s1 s2] eq by simp
  next
    case False
    then have eq: "sort_outer i fs = fs" by (subst sort_outer.simps) simp
    have "length (drop i fs) \<le> 1" using False by simp
    then have sd: "sorted (map modTime (drop i fs))"
      by (cases "drop i fs") (auto simp: le_Suc_eq)
    have "sorted (map modTime (take i fs @ drop i fs))"
      unfolding map_append sorted_append using "1.prems" sd by auto
    then show ?thesis using eq by simp
  qed
qed

lemma sortByModTime_sorted: "sorted (map modTime (sortByModTime fs))"
  unfolding sortByModTime_def by (rule sorted_sort_outer) simp_all

lemma sortByModTime_mset: "mset (sortByModTime fs) = mset fs"
  unfolding sortByModTime_def by (rule mset_sort_outer)

subsection \<open>\<open>Write\<close>\<close>

lemma sint_sub_in_range:
  fixes a b :: int64
  assumes "- (2 ^ 63) \<le> sint a - sint b" and "sint a - sint b < 2 ^ 63"
  shows "sint (a - b) = sint a - sint b"
  using assms by (simp add: sint_word_ariths signed_take_bit_int_eq_self)

lemma sint_add_of_nat_in_range:
  fixes a :: int64
  assumes "sint a + int n < 2 ^ 63" and "- (2 ^ 63) \<le> sint a + int n"
  shows "sint (a + of_nat n) = sint a + int n"
proof -
  have w: "a + of_nat n = word_of_int (sint a + int n)" by simp
  have s: "signed_take_bit 63 (sint a + int n) = sint a + int n"
    by (rule signed_take_bit_int_eq_self) (use assms in simp_all)
  have "sint (word_of_int (sint a + int n) :: int64) = signed_take_bit 63 (sint a + int n)"
    unfolding sint_sbintrunc' by simp
  then show ?thesis unfolding w s .
qed

lemma Write_ok_within_cap:
  assumes "fst (Write marshal now v b d) = None"
  shows "currentSize (fst (snd (Write marshal now v b d))) \<le>s maxSize (fst (snd (Write marshal now v b d)))"
  using assms
  by (auto simp: Write_def word_sle_eq word_sless_alt
      split: option.splits if_splits prod.splits bool.splits)

lemma Write_refuses:
  assumes "marshal v = Some js" and "maxSize b <s currentSize b + of_nat (length js)"
  shows "Write marshal now v b d = (Some (BufferFull (currentSize b) (maxSize b)), b, d)"
  using assms by (simp add: Write_def)

lemma Write_refuses_int:
  assumes "marshal v = Some js" and "sint (currentSize b) + int (length js) < 2 ^ 63"
    and "sint (maxSize b) < sint (currentSize b) + int (length js)"
  shows "Write marshal now v b d = (Some (BufferFull (currentSize b) (maxSize b)), b, d)"
proof -
  have "- (2 ^ 63) \<le> sint (currentSize b)" using sint_ge [of "currentSize b"] by simp
  then have "sint (currentSize b + of_nat (length js)) = sint (currentSize b) + int (length js)"
    using assms(2) by (intro sint_add_of_nat_in_range) simp_all
  then have "maxSize b <s currentSize b + of_nat (length js)"
    using assms(3) by (simp add: word_sless_alt)
  then show ?thesis using assms(1) by (rule Write_refuses [rotated])
qed




subsection \<open>The removal loop\<close>

lemma find_filter_same:
  "(\<And>x. P x \<Longrightarrow> Q x) \<Longrightarrow> find P (filter Q xs) = find P xs"
  by (induction xs) auto

lemma os_Remove_entries:
  "os_Remove dp p d = Some d1 \<Longrightarrow>
     entries d1 = filter (\<lambda>e. Join dp (ename e) \<noteq> p) (entries d)"
  by (auto simp: os_Remove_def split: option.splits if_splits)

text \<open>Whether a file can be removed does not depend on the other files removed before.\<close>

lemma os_Remove_after:
  assumes "os_Remove dp p d = Some d1" and "q \<noteq> p"
  shows "(os_Remove dp q d1 = None) = (os_Remove dp q d = None)"
proof -
  have "find (\<lambda>e. Join dp (ename e) = q) (filter (\<lambda>e. Join dp (ename e) \<noteq> p) (entries d))
        = find (\<lambda>e. Join dp (ename e) = q) (entries d)"
    using assms(2) by (intro find_filter_same) auto
  then have "find (\<lambda>e. Join dp (ename e) = q) (entries d1)
        = find (\<lambda>e. Join dp (ename e) = q) (entries d)"
    using os_Remove_entries [OF assms(1)] by simp
  then show ?thesis by (simp add: os_Remove_def split: option.splits)
qed

text \<open>
  The loop over the sorted files \<open>fs\<close>: it looks at the first \<open>k\<close> of them and removes
  those that can be removed; the tracked size exceeds the limit before each of the
  \<open>k\<close>, and is within the limit afterwards unless \<open>k\<close> is all of them.
\<close>

lemma prune_remove_general:
  assumes "distinct (map path fs)"
  shows "\<exists>k\<le>length fs.
           fst (prune_remove fs b d)
             = b\<lparr>currentSize := currentSize b - sum_list (map fsize
                    (filter (\<lambda>f. os_Remove (dir b) (path f) d \<noteq> None) (take k fs)))\<rparr>
           \<and> entries (snd (prune_remove fs b d))
             = filter (\<lambda>e. Join (dir b) (ename e) \<notin> path ` set
                    (filter (\<lambda>f. os_Remove (dir b) (path f) d \<noteq> None) (take k fs))) (entries d)
           \<and> (\<forall>j<k. \<not> (currentSize b - sum_list (map fsize
                    (filter (\<lambda>f. os_Remove (dir b) (path f) d \<noteq> None) (take j fs))) \<le>s maxSize b))
           \<and> (k = length fs \<or> currentSize b - sum_list (map fsize
                    (filter (\<lambda>f. os_Remove (dir b) (path f) d \<noteq> None) (take k fs))) \<le>s maxSize b)"
  using assms
proof (induction fs arbitrary: b d)
  case Nil
  then show ?case by simp
next
  case (Cons f fs)
  have d': "distinct (map path fs)" using Cons.prems by simp
  have ne: "path g \<noteq> path f" if "g \<in> set fs" for g
    using Cons.prems that by (metis distinct.simps(2) image_eqI list.simps(9) set_map)
  show ?case
  proof (cases "currentSize b \<le>s maxSize b")
    case True
    then have "prune_remove (f # fs) b d = (b, d)" by simp
    then show ?thesis using True by (intro exI [of _ 0]) simp
  next
    case False
    show ?thesis
    proof (cases "os_Remove (dir b) (path f) d")
      case None
      have step: "prune_remove (f # fs) b d = prune_remove fs b d"
        using False None by simp
      let ?R = "\<lambda>f. os_Remove (dir b) (path f) d \<noteq> None"
      from Cons.IH [OF d', of b d] obtain k where k: "k \<le> length fs"
        and res: "fst (prune_remove fs b d)
             = b\<lparr>currentSize := currentSize b - sum_list (map fsize (filter ?R (take k fs)))\<rparr>"
        and ent: "entries (snd (prune_remove fs b d))
             = filter (\<lambda>e. Join (dir b) (ename e) \<notin> path ` set (filter ?R (take k fs))) (entries d)"
        and above: "\<forall>j<k. \<not> (currentSize b - sum_list (map fsize (filter ?R (take j fs))) \<le>s maxSize b)"
        and fin: "k = length fs
                  \<or> currentSize b - sum_list (map fsize (filter ?R (take k fs))) \<le>s maxSize b"
        by blast
      have skip: "filter ?R (take (Suc j) (f # fs)) = filter ?R (take j fs)" for j
        using None by simp
      have a2: "\<forall>j<Suc k. \<not> (currentSize b
                  - sum_list (map fsize (filter ?R (take j (f # fs)))) \<le>s maxSize b)"
      proof (intro allI impI)
        fix j assume j: "j < Suc k"
        show "\<not> (currentSize b - sum_list (map fsize (filter ?R (take j (f # fs)))) \<le>s maxSize b)"
        proof (cases j)
          case 0
          then show ?thesis using False by simp
        next
          case (Suc j')
          then have "j' < k" using j by simp
          then show ?thesis using above unfolding Suc skip by simp
        qed
      qed
      show ?thesis
        apply (rule exI [of _ "Suc k"])
        unfolding step skip
        using k res ent a2 fin by (simp add: skip)
    next
      case (Some d1)
      let ?b1 = "b\<lparr>currentSize := currentSize b - fsize f\<rparr>"
      let ?R = "\<lambda>f. os_Remove (dir b) (path f) d \<noteq> None"
      let ?R1 = "\<lambda>f. os_Remove (dir ?b1) (path f) d1 \<noteq> None"
      have step: "prune_remove (f # fs) b d = prune_remove fs ?b1 d1"
        using False Some by simp
      have same: "filter ?R1 (take j fs) = filter ?R (take j fs)" for j
      proof (rule filter_cong [OF refl])
        fix g assume "g \<in> set (take j fs)"
        then have "g \<in> set fs" by (rule in_set_takeD)
        then have "path g \<noteq> path f" by (rule ne)
        then show "?R1 g = ?R g" using os_Remove_after [OF Some] by simp
      qed
      have keep: "filter ?R (take (Suc j) (f # fs)) = f # filter ?R (take j fs)" for j
        using Some by simp
      from Cons.IH [OF d', of ?b1 d1] obtain k where k: "k \<le> length fs"
        and res: "fst (prune_remove fs ?b1 d1)
             = ?b1\<lparr>currentSize := currentSize ?b1 - sum_list (map fsize (filter ?R1 (take k fs)))\<rparr>"
        and ent: "entries (snd (prune_remove fs ?b1 d1))
             = filter (\<lambda>e. Join (dir ?b1) (ename e) \<notin> path ` set (filter ?R1 (take k fs))) (entries d1)"
        and above: "\<forall>j<k. \<not> (currentSize ?b1 - sum_list (map fsize (filter ?R1 (take j fs)))
                      \<le>s maxSize ?b1)"
        and fin: "k = length fs
                  \<or> currentSize ?b1 - sum_list (map fsize (filter ?R1 (take k fs))) \<le>s maxSize ?b1"
        by blast
      have e1: "fst (prune_remove fs ?b1 d1)
            = b\<lparr>currentSize := currentSize b
                  - sum_list (map fsize (filter ?R (take (Suc k) (f # fs))))\<rparr>"
        unfolding res same keep by (simp add: algebra_simps)
      have e2: "entries (snd (prune_remove fs ?b1 d1))
            = filter (\<lambda>e. Join (dir b) (ename e) \<notin> path ` set (filter ?R (take (Suc k) (f # fs))))
                (entries d)"
        unfolding ent same keep os_Remove_entries [OF Some]
        by (auto intro: filter_cong)
      have a2: "\<forall>j<Suc k. \<not> (currentSize b
                  - sum_list (map fsize (filter ?R (take j (f # fs)))) \<le>s maxSize b)"
      proof (intro allI impI)
        fix j assume j: "j < Suc k"
        show "\<not> (currentSize b - sum_list (map fsize (filter ?R (take j (f # fs)))) \<le>s maxSize b)"
        proof (cases j)
          case 0
          then show ?thesis using False by simp
        next
          case (Suc j')
          then have "j' < k" using j by simp
          then have "\<not> (currentSize ?b1 - sum_list (map fsize (filter ?R (take j' fs)))
                      \<le>s maxSize ?b1)"
            using above same by simp
          then show ?thesis unfolding Suc keep by (simp add: algebra_simps)
        qed
      qed
      have f2: "Suc k = length (f # fs)
                \<or> currentSize b - sum_list (map fsize (filter ?R (take (Suc k) (f # fs))))
                    \<le>s maxSize b"
        using fin unfolding same keep by (auto simp: algebra_simps)
      show ?thesis
        apply (rule exI [of _ "Suc k"])
        unfolding step
        using k e1 e2 a2 f2 by simp
    qed
  qed
qed

text \<open>The loop changes nothing of the directory but its files and the room they take.\<close>

lemma prune_remove_flags:
  "listable (snd (prune_remove fs b d)) = listable d
   \<and> writable (snd (prune_remove fs b d)) = writable d
   \<and> creatable (snd (prune_remove fs b d)) = creatable d"
proof (induction fs arbitrary: b d)
  case (Cons f fs)
  have "listable d1 = listable d \<and> writable d1 = writable d \<and> creatable d1 = creatable d"
    if "os_Remove (dir b) (path f) d = Some d1" for d1
    using that by (auto simp: os_Remove_def split: option.splits if_splits)
  then show ?case using Cons.IH by (auto split: option.splits)
qed simp

subsection \<open>\<open>Prune\<close> on a directory\<close>

lemma inj_Join: "Join dp a = Join dp b \<Longrightarrow> a = b"
  by (simp add: Join_def)

lemma distinct_listFiles:
  assumes "distinct (map ename es)"
  shows "distinct (map path (listFiles dp es))"
proof -
  have "distinct (map ename (filter (\<lambda>e. \<not> isDir e) es))"
    using assms by (rule distinct_map_filter)
  then have "distinct (map (Join dp) (map ename (filter (\<lambda>e. \<not> isDir e) es)))"
    by (simp add: distinct_map inj_on_def inj_Join)
  then show ?thesis by (simp add: listFiles_def comp_def)
qed

lemma sortedFiles_mset: "mset (sortedFiles dp es) = mset (listFiles dp es)"
  by (simp add: sortedFiles_def sortByModTime_mset)

lemma sortedFiles_sorted: "sorted (map modTime (sortedFiles dp es))"
  by (simp add: sortedFiles_def sortByModTime_sorted)

lemma distinct_sortedFiles:
  assumes "distinct (map ename es)"
  shows "distinct (map path (sortedFiles dp es))"
proof -
  have "mset (map path (sortedFiles dp es)) = mset (map path (listFiles dp es))"
    by (simp add: sortedFiles_mset)
  then show ?thesis
    using distinct_listFiles [OF assms] by (metis mset_eq_imp_distinct_iff)
qed

text \<open>The listing of \<open>os.ReadDir\<close> holds the entries of the directory, each once.\<close>

lemma distinct_listing:
  "distinct (map ename (sort_key ename es)) = distinct (map ename es)"
proof -
  have "mset (map ename (sort_key ename es)) = mset (map ename es)" by simp
  then show ?thesis by (rule mset_eq_imp_distinct_iff)
qed

lemma set_sortedFiles_listing:
  "set (sortedFiles dp (sort_key ename es)) = set (listFiles dp es)"
proof -
  have "set (sortedFiles dp (sort_key ename es)) = set (listFiles dp (sort_key ename es))"
    using sortedFiles_mset by (rule mset_eq_setD)
  then show ?thesis by (simp add: listFiles_def)
qed

lemma mset_sortedFiles_listing:
  "mset (sortedFiles dp (sort_key ename es)) = mset (listFiles dp es)"
  by (simp add: sortedFiles_mset listFiles_def)

lemma in_listFiles:
  "f \<in> set (listFiles dp es) \<longleftrightarrow>
     (\<exists>e \<in> set es. \<not> isDir e
        \<and> f = \<lparr>path = Join dp (ename e), modTime = mtime e, fsize = file_size e\<rparr>)"
  by (auto simp: listFiles_def)

lemma find_distinct:
  assumes "distinct (map ename es)" and "e \<in> set es"
  shows "find (\<lambda>x. Join dp (ename x) = Join dp (ename e)) es = Some e"
  using assms
proof (induction es)
  case (Cons x es)
  show ?case
  proof (cases "x = e")
    case True then show ?thesis by simp
  next
    case False
    then have "e \<in> set es" using Cons.prems(2) by simp
    then have "ename x \<noteq> ename e" using Cons.prems(1) by force
    then have "Join dp (ename x) \<noteq> Join dp (ename e)" using inj_Join by blast
    then show ?thesis using Cons \<open>e \<in> set es\<close> by simp
  qed
qed simp

text \<open>A file of the directory can be removed exactly when no other process holds it.\<close>

lemma os_Remove_unlocked:
  assumes "distinct (map ename (entries d))" and "e \<in> set (entries d)"
  shows "os_Remove dp (Join dp (ename e)) d \<noteq> None \<longleftrightarrow> \<not> locked e"
  by (simp add: os_Remove_def find_distinct [OF assms])

lemma sum_fsize_sortedFiles:
  "sum_list (map fsize (sortedFiles dp (sort_key ename es)))
     = of_nat (sum_list (map (\<lambda>e. length (data e)) (filter (\<lambda>e. \<not> isDir e) es)))"
proof -
  have "sum_list (map fsize (sortedFiles dp (sort_key ename es)))
      = sum_mset (image_mset fsize (mset (sortedFiles dp (sort_key ename es))))"
    by (simp flip: sum_mset_sum_list)
  also have "\<dots> = sum_mset (image_mset fsize (mset (listFiles dp es)))"
    by (simp add: mset_sortedFiles_listing)
  also have "\<dots> = sum_list (map fsize (listFiles dp es))"
    by (simp flip: sum_mset_sum_list)
  also have "\<dots> = of_nat (sum_list (map (\<lambda>e. length (data e)) (filter (\<lambda>e. \<not> isDir e) es)))"
    by (induction es) (simp_all add: listFiles_def file_size_def)
  finally show ?thesis .
qed

text \<open>
  \<open>Prune\<close> over the limit, on a directory it can list and whose names are distinct:
  of the files in ascending order of modification time it looks at the first \<open>k\<close> and
  removes those that can be removed.
\<close>

lemma Prune_general:
  assumes over: "\<not> currentSize b \<le>s maxSize b" and ls: "listable d"
    and dn: "distinct (map ename (entries d))"
  shows "\<exists>k\<le>length (sortedFiles (dir b) (sort_key ename (entries d))).
           fst (Prune b d) = None
           \<and> fst (snd (Prune b d))
             = b\<lparr>currentSize := currentSize b - sum_list (map fsize
                    (filter (\<lambda>f. os_Remove (dir b) (path f) d \<noteq> None)
                       (take k (sortedFiles (dir b) (sort_key ename (entries d))))))\<rparr>
           \<and> entries (snd (snd (Prune b d)))
             = filter (\<lambda>e. Join (dir b) (ename e) \<notin> path ` set
                    (filter (\<lambda>f. os_Remove (dir b) (path f) d \<noteq> None)
                       (take k (sortedFiles (dir b) (sort_key ename (entries d))))))
                 (entries d)
           \<and> (\<forall>r \<in> set (take k (sortedFiles (dir b) (sort_key ename (entries d)))).
                \<forall>s \<in> set (drop k (sortedFiles (dir b) (sort_key ename (entries d)))).
                  modTime r \<le> modTime s)
           \<and> (\<forall>j<k. \<not> (currentSize b - sum_list (map fsize
                    (filter (\<lambda>f. os_Remove (dir b) (path f) d \<noteq> None)
                       (take j (sortedFiles (dir b) (sort_key ename (entries d))))))
                  \<le>s maxSize b))
           \<and> (k = length (sortedFiles (dir b) (sort_key ename (entries d)))
                \<or> currentSize b - sum_list (map fsize
                    (filter (\<lambda>f. os_Remove (dir b) (path f) d \<noteq> None)
                       (take k (sortedFiles (dir b) (sort_key ename (entries d))))))
                  \<le>s maxSize b)"
proof -
  let ?fs = "sortedFiles (dir b) (sort_key ename (entries d))"
  let ?R = "\<lambda>f. os_Remove (dir b) (path f) d \<noteq> None"
  have d1: "distinct (map path ?fs)"
    using dn by (intro distinct_sortedFiles) (simp add: distinct_listing)
  from prune_remove_general [OF d1, of b d] obtain k where k: "k \<le> length ?fs"
    and res: "fst (prune_remove ?fs b d)
             = b\<lparr>currentSize := currentSize b - sum_list (map fsize (filter ?R (take k ?fs)))\<rparr>"
    and ent: "entries (snd (prune_remove ?fs b d))
             = filter (\<lambda>e. Join (dir b) (ename e) \<notin> path ` set (filter ?R (take k ?fs))) (entries d)"
    and above: "\<forall>j<k. \<not> (currentSize b - sum_list (map fsize (filter ?R (take j ?fs))) \<le>s maxSize b)"
    and fin: "k = length ?fs
              \<or> currentSize b - sum_list (map fsize (filter ?R (take k ?fs))) \<le>s maxSize b"
    by blast
  have "sorted (map modTime (take k ?fs @ drop k ?fs))"
    using sortedFiles_sorted by simp
  then have old: "\<forall>r \<in> set (take k ?fs). \<forall>s \<in> set (drop k ?fs). modTime r \<le> modTime s"
    unfolding map_append sorted_append by auto
  have "Prune b d = (None, prune_remove ?fs b d)"
    using over ls by (simp add: Prune_def ReadDir_def)
  then show ?thesis using k res ent old above fin by auto
qed

text \<open>
  After such a \<open>Prune\<close>: every directory and every file held by another process is
  still there; either the tracked size is within the limit or every file left is
  held by another process; and a file that was removed is no newer than any file left
  that could have been removed.
\<close>

lemma Prune_skips_held:
  assumes over: "\<not> currentSize b \<le>s maxSize b" and ls: "listable d"
    and dn: "distinct (map ename (entries d))"
  shows "set (entries (snd (snd (Prune b d)))) \<subseteq> set (entries d)"
    and "\<forall>e \<in> set (entries d). isDir e \<or> locked e \<longrightarrow> e \<in> set (entries (snd (snd (Prune b d))))"
    and "currentSize (fst (snd (Prune b d))) \<le>s maxSize b
         \<or> (\<forall>e \<in> set (entries (snd (snd (Prune b d)))). \<not> isDir e \<longrightarrow> locked e)"
    and "\<forall>r \<in> set (entries d). r \<notin> set (entries (snd (snd (Prune b d)))) \<longrightarrow>
           (\<forall>s \<in> set (entries (snd (snd (Prune b d)))).
              \<not> isDir s \<and> \<not> locked s \<longrightarrow> mtime r \<le> mtime s)"
proof -
  let ?fs = "sortedFiles (dir b) (sort_key ename (entries d))"
  let ?R = "\<lambda>f. os_Remove (dir b) (path f) d \<noteq> None"
  let ?info = "\<lambda>e. \<lparr>path = Join (dir b) (ename e), modTime = mtime e, fsize = file_size e\<rparr>"
  from Prune_general [OF over ls dn] obtain k where k: "k \<le> length ?fs"
    and res: "fst (snd (Prune b d))
             = b\<lparr>currentSize := currentSize b - sum_list (map fsize (filter ?R (take k ?fs)))\<rparr>"
    and ent: "entries (snd (snd (Prune b d)))
             = filter (\<lambda>e. Join (dir b) (ename e) \<notin> path ` set (filter ?R (take k ?fs))) (entries d)"
    and old: "\<forall>r \<in> set (take k ?fs). \<forall>s \<in> set (drop k ?fs). modTime r \<le> modTime s"
    and fin: "k = length ?fs
              \<or> currentSize b - sum_list (map fsize (filter ?R (take k ?fs))) \<le>s maxSize b"
    by blast
  have fs: "set ?fs = set (listFiles (dir b) (entries d))" by (rule set_sortedFiles_listing)
  have same: "\<not> isDir e \<and> f = ?info e"
    if "f \<in> set ?fs" and "e \<in> set (entries d)" and "path f = Join (dir b) (ename e)" for f e
  proof -
    from that(1) fs obtain e2 where e2: "e2 \<in> set (entries d)" "\<not> isDir e2" "f = ?info e2"
      by (auto simp: in_listFiles)
    then have "ename e2 = ename e" using that(3) inj_Join by auto
    then have "e2 = e" using dn e2(1) that(2) by (meson distinct_map inj_onD)
    then show ?thesis using e2 by simp
  qed
  have info: "?info e \<in> set ?fs" if "e \<in> set (entries d)" and "\<not> isDir e" for e
    using that fs by (auto simp: in_listFiles)
  show "set (entries (snd (snd (Prune b d)))) \<subseteq> set (entries d)"
    unfolding ent by auto
  show "\<forall>e \<in> set (entries d). isDir e \<or> locked e \<longrightarrow> e \<in> set (entries (snd (snd (Prune b d))))"
  proof (intro ballI impI)
    fix e assume e: "e \<in> set (entries d)" and h: "isDir e \<or> locked e"
    have "Join (dir b) (ename e) \<notin> path ` set (filter ?R (take k ?fs))"
    proof
      assume "Join (dir b) (ename e) \<in> path ` set (filter ?R (take k ?fs))"
      then obtain f where f: "f \<in> set (take k ?fs)" "?R f" "path f = Join (dir b) (ename e)"
        by auto
      from f(1) have "f \<in> set ?fs" by (rule in_set_takeD)
      from same [OF this e f(3)] have nd: "\<not> isDir e" by simp
      have "\<not> locked e" using f(2) os_Remove_unlocked [OF dn e, of "dir b"] f(3) by simp
      then show False using h nd by simp
    qed
    then show "e \<in> set (entries (snd (snd (Prune b d))))" unfolding ent using e by simp
  qed
  show "currentSize (fst (snd (Prune b d))) \<le>s maxSize b
         \<or> (\<forall>e \<in> set (entries (snd (snd (Prune b d)))). \<not> isDir e \<longrightarrow> locked e)"
  proof (cases "currentSize (fst (snd (Prune b d))) \<le>s maxSize b")
    case False
    then have kl: "k = length ?fs" using fin res by auto
    have "locked e" if e: "e \<in> set (entries (snd (snd (Prune b d))))" and nd: "\<not> isDir e" for e
    proof (rule ccontr)
      assume ul: "\<not> locked e"
      have ed: "e \<in> set (entries d)" using e unfolding ent by simp
      have "?R (?info e)" using os_Remove_unlocked [OF dn ed, of "dir b"] ul by simp
      moreover have "?info e \<in> set (take k ?fs)" using info [OF ed nd] kl by simp
      ultimately have "Join (dir b) (ename e) \<in> path ` set (filter ?R (take k ?fs))"
        by force
      then show False using e unfolding ent by simp
    qed
    then show ?thesis by blast
  qed simp
  show "\<forall>r \<in> set (entries d). r \<notin> set (entries (snd (snd (Prune b d)))) \<longrightarrow>
           (\<forall>s \<in> set (entries (snd (snd (Prune b d)))).
              \<not> isDir s \<and> \<not> locked s \<longrightarrow> mtime r \<le> mtime s)"
  proof (intro ballI impI)
    fix r s
    assume r: "r \<in> set (entries d)" and gone: "r \<notin> set (entries (snd (snd (Prune b d))))"
      and s: "s \<in> set (entries (snd (snd (Prune b d))))" and su: "\<not> isDir s \<and> \<not> locked s"
    from gone r have "Join (dir b) (ename r) \<in> path ` set (filter ?R (take k ?fs))"
      unfolding ent by simp
    then obtain f where f: "f \<in> set (take k ?fs)" "path f = Join (dir b) (ename r)" by auto
    from f(1) have "f \<in> set ?fs" by (rule in_set_takeD)
    from same [OF this r f(2)] have fr: "f = ?info r" by simp
    have sd: "s \<in> set (entries d)" using s unfolding ent by simp
    have si: "?info s \<in> set ?fs" using info [OF sd] su by simp
    have "?info s \<notin> set (take k ?fs)"
    proof
      assume "?info s \<in> set (take k ?fs)"
      moreover have "?R (?info s)" using os_Remove_unlocked [OF dn sd, of "dir b"] su by simp
      ultimately have "Join (dir b) (ename s) \<in> path ` set (filter ?R (take k ?fs))" by force
      then show False using s unfolding ent by simp
    qed
    moreover have "set ?fs = set (take k ?fs) \<union> set (drop k ?fs)"
      by (metis append_take_drop_id set_append)
    ultimately have "?info s \<in> set (drop k ?fs)" using si by blast
    then have "modTime f \<le> modTime (?info s)" using old f(1) by blast
    then show "mtime r \<le> mtime s" using fr by simp
  qed
qed

text \<open>With no file held by another process, no removal fails.\<close>

lemma Prune_none_held:
  assumes dn: "distinct (map ename (entries d))" and ul: "\<forall>e \<in> set (entries d). \<not> locked e"
    and f: "f \<in> set (sortedFiles (dir b) (sort_key ename (entries d)))"
  shows "os_Remove (dir b) (path f) d \<noteq> None"
proof -
  from f obtain e where e: "e \<in> set (entries d)" "path f = Join (dir b) (ename e)"
    by (auto simp: set_sortedFiles_listing in_listFiles)
  then show ?thesis using os_Remove_unlocked [OF dn e(1), of "dir b"] ul by simp
qed

lemma Prune_within_cap:
  assumes over: "\<not> currentSize b \<le>s maxSize b" and ls: "listable d"
    and dn: "distinct (map ename (entries d))" and ul: "\<forall>e \<in> set (entries d). \<not> locked e"
    and nn: "0 \<le>s maxSize b"
    and tr: "sint (currentSize b)
               \<le> int (sum_list (map (\<lambda>e. length (data e)) (filter (\<lambda>e. \<not> isDir e) (entries d))))"
    and sm: "int (sum_list (map (\<lambda>e. length (data e)) (filter (\<lambda>e. \<not> isDir e) (entries d)))) < 2 ^ 63"
  shows "currentSize (fst (snd (Prune b d))) \<le>s maxSize b"
proof -
  let ?fs = "sortedFiles (dir b) (sort_key ename (entries d))"
  let ?R = "\<lambda>f. os_Remove (dir b) (path f) d \<noteq> None"
  let ?S = "sum_list (map (\<lambda>e. length (data e)) (filter (\<lambda>e. \<not> isDir e) (entries d)))"
  from Prune_general [OF over ls dn] obtain k where
    res: "fst (snd (Prune b d))
             = b\<lparr>currentSize := currentSize b - sum_list (map fsize (filter ?R (take k ?fs)))\<rparr>"
    and fin: "k = length ?fs
              \<or> currentSize b - sum_list (map fsize (filter ?R (take k ?fs))) \<le>s maxSize b"
    by blast
  have all: "filter ?R (take k ?fs) = take k ?fs"
    using Prune_none_held [OF dn ul] by (auto intro!: filter_True dest: in_set_takeD)
  have cs: "currentSize (fst (snd (Prune b d))) = currentSize b - sum_list (map fsize (take k ?fs))"
    unfolding res all by simp
  from fin show ?thesis
  proof
    assume "k = length ?fs"
    then have "currentSize (fst (snd (Prune b d))) = currentSize b - of_nat ?S"
      using cs by (simp add: sum_fsize_sortedFiles)
    moreover have sS: "sint (of_nat ?S :: int64) = int ?S"
      using sm sint_add_of_nat_in_range [of 0 ?S] by simp
    moreover have pos: "0 < sint (currentSize b)"
      using over nn by (simp add: word_sle_eq)
    moreover have "sint (currentSize b - of_nat ?S) = sint (currentSize b) - int ?S"
      using sS pos tr sm sint_lt [of "currentSize b"]
      by (intro sint_sub_in_range [THEN trans]) simp_all
    ultimately show ?thesis using tr nn by (simp add: word_sle_eq)
  next
    assume "currentSize b - sum_list (map fsize (filter ?R (take k ?fs))) \<le>s maxSize b"
    then show ?thesis unfolding res by simp
  qed
qed

subsection \<open>The size limit\<close>

text \<open>
  Claim C6, amended. After a \<open>Write\<close> that returns successfully the tracked size is at
  most \<open>maxSize\<close>. \<open>Write\<close> returns the buffer-full error, leaving buffer and directory
  as they were, whenever \<open>currentSize + record size\<close> as computed in \<open>int64\<close> exceeds
  \<open>maxSize\<close>, and so whenever the exact sum does and fits in \<open>int64\<close>. \<open>Prune\<close> does
  nothing when the tracked size is within the limit. Otherwise, on a directory it can
  list and whose names are distinct, it returns successfully, having visited the files
  in ascending order of modification time: of the first \<open>k\<close> files of that order it
  removed those whose removal did not fail and skipped the others, subtracting the size
  of each file removed from the tracked size; the tracked size exceeded the limit
  before each of the \<open>k\<close> files, and is within the limit afterwards unless all files
  were visited. So every directory and every file held by another process is still
  there, the tracked size is within the limit or every file left is held by another
  process, and a file removed is no newer than any file left that is not held. When
  no file is held, no removal fails, and the tracked size after \<open>Prune\<close> is within the
  limit provided the limit is not negative and the tracked size was at most the total
  size of the files (which fits in \<open>int64\<close>).
\<close>

theorem buffer_cap:
  "(fst (Write marshal now v b d) = None \<longrightarrow>
      currentSize (fst (snd (Write marshal now v b d)))
        \<le>s maxSize (fst (snd (Write marshal now v b d))))
   \<and> (marshal v = Some js \<and> maxSize b <s currentSize b + of_nat (length js) \<longrightarrow>
      Write marshal now v b d = (Some (BufferFull (currentSize b) (maxSize b)), b, d))
   \<and> (marshal v = Some js \<and> sint (currentSize b) + int (length js) < 2 ^ 63
        \<and> sint (maxSize b) < sint (currentSize b) + int (length js) \<longrightarrow>
      Write marshal now v b d = (Some (BufferFull (currentSize b) (maxSize b)), b, d))
   \<and> (currentSize b \<le>s maxSize b \<longrightarrow> Prune b d = (None, b, d))
   \<and> (\<not> currentSize b \<le>s maxSize b \<and> listable d \<and> distinct (map ename (entries d)) \<longrightarrow>
      sorted (map modTime (sortedFiles (dir b) (sort_key ename (entries d))))
      \<and> mset (sortedFiles (dir b) (sort_key ename (entries d)))
          = mset (listFiles (dir b) (entries d))
      \<and> (\<exists>k\<le>length (sortedFiles (dir b) (sort_key ename (entries d))).
           fst (Prune b d) = None
           \<and> fst (snd (Prune b d))
             = b\<lparr>currentSize := currentSize b - sum_list (map fsize
                    (filter (\<lambda>f. os_Remove (dir b) (path f) d \<noteq> None)
                       (take k (sortedFiles (dir b) (sort_key ename (entries d))))))\<rparr>
           \<and> entries (snd (snd (Prune b d)))
             = filter (\<lambda>e. Join (dir b) (ename e) \<notin> path ` set
                    (filter (\<lambda>f. os_Remove (dir b) (path f) d \<noteq> None)
                       (take k (sortedFiles (dir b) (sort_key ename (entries d))))))
                 (entries d)
           \<and> (\<forall>r \<in> set (take k (sortedFiles (dir b) (sort_key ename (entries d)))).
                \<forall>s \<in> set (drop k (sortedFiles (dir b) (sort_key ename (entries d)))).
                  modTime r \<le> modTime s)
           \<and> (\<forall>j<k. \<not> (currentSize b - sum_list (map fsize
                    (filter (\<lambda>f. os_Remove (dir b) (path f) d \<noteq> None)
                       (take j (sortedFiles (dir b) (sort_key ename (entries d))))))
                  \<le>s maxSize b))
           \<and> (k = length (sortedFiles (dir b) (sort_key ename (entries d)))
                \<or> currentSize b - sum_list (map fsize
                    (filter (\<lambda>f. os_Remove (dir b) (path f) d \<noteq> None)
                       (take k (sortedFiles (dir b) (sort_key ename (entries d))))))
                  \<le>s maxSize b))
      \<and> set (entries (snd (snd (Prune b d)))) \<subseteq> set (entries d)
      \<and> (\<forall>e \<in> set (entries d).
            isDir e \<or> locked e \<longrightarrow> e \<in> set (entries (snd (snd (Prune b d)))))
      \<and> (currentSize (fst (snd (Prune b d))) \<le>s maxSize b
          \<or> (\<forall>e \<in> set (entries (snd (snd (Prune b d)))). \<not> isDir e \<longrightarrow> locked e))
      \<and> (\<forall>r \<in> set (entries d). r \<notin> set (entries (snd (snd (Prune b d)))) \<longrightarrow>
           (\<forall>s \<in> set (entries (snd (snd (Prune b d)))).
              \<not> isDir s \<and> \<not> locked s \<longrightarrow> mtime r \<le> mtime s)))
   \<and> (distinct (map ename (entries d)) \<and> (\<forall>e \<in> set (entries d). \<not> locked e) \<longrightarrow>
      (\<forall>f \<in> set (sortedFiles (dir b) (sort_key ename (entries d))).
         os_Remove (dir b) (path f) d \<noteq> None))
   \<and> (\<not> currentSize b \<le>s maxSize b \<and> listable d \<and> distinct (map ename (entries d))
        \<and> (\<forall>e \<in> set (entries d). \<not> locked e) \<and> 0 \<le>s maxSize b
        \<and> sint (currentSize b)
             \<le> int (sum_list (map (\<lambda>e. length (data e)) (filter (\<lambda>e. \<not> isDir e) (entries d))))
        \<and> int (sum_list (map (\<lambda>e. length (data e)) (filter (\<lambda>e. \<not> isDir e) (entries d)))) < 2 ^ 63
       \<longrightarrow> currentSize (fst (snd (Prune b d))) \<le>s maxSize b)"
proof -
  have w1: "currentSize (fst (snd (Write marshal now v b d)))
        \<le>s maxSize (fst (snd (Write marshal now v b d)))"
    if "fst (Write marshal now v b d) = None"
    using that by (rule Write_ok_within_cap)
  have w2: "Write marshal now v b d = (Some (BufferFull (currentSize b) (maxSize b)), b, d)"
    if "marshal v = Some js \<and> maxSize b <s currentSize b + of_nat (length js)"
  proof -
    from that have a: "marshal v = Some js"
      and b: "maxSize b <s currentSize b + of_nat (length js)" by simp_all
    show ?thesis by (rule Write_refuses [where marshal = marshal and v = v, OF a b])
  qed
  have w3: "Write marshal now v b d = (Some (BufferFull (currentSize b) (maxSize b)), b, d)"
    if "marshal v = Some js \<and> sint (currentSize b) + int (length js) < 2 ^ 63
        \<and> sint (maxSize b) < sint (currentSize b) + int (length js)"
  proof -
    from that have a: "marshal v = Some js"
      and b: "sint (currentSize b) + int (length js) < 2 ^ 63"
      and c: "sint (maxSize b) < sint (currentSize b) + int (length js)" by simp_all
    show ?thesis by (rule Write_refuses_int [where marshal = marshal and v = v, OF a b c])
  qed
  have p0: "Prune b d = (None, b, d)" if "currentSize b \<le>s maxSize b"
    using that by (simp add: Prune_def)
  have p1: "sorted (map modTime (sortedFiles (dir b) (sort_key ename (entries d))))"
    by (rule sortedFiles_sorted)
  have p2: "mset (sortedFiles (dir b) (sort_key ename (entries d)))
          = mset (listFiles (dir b) (entries d))"
    by (rule mset_sortedFiles_listing)
  have p3: "\<forall>f \<in> set (sortedFiles (dir b) (sort_key ename (entries d))).
         os_Remove (dir b) (path f) d \<noteq> None"
    if "distinct (map ename (entries d)) \<and> (\<forall>e \<in> set (entries d). \<not> locked e)"
    using that Prune_none_held by blast
  have p4: "currentSize (fst (snd (Prune b d))) \<le>s maxSize b"
    if "\<not> currentSize b \<le>s maxSize b \<and> listable d \<and> distinct (map ename (entries d))
        \<and> (\<forall>e \<in> set (entries d). \<not> locked e) \<and> 0 \<le>s maxSize b
        \<and> sint (currentSize b)
             \<le> int (sum_list (map (\<lambda>e. length (data e)) (filter (\<lambda>e. \<not> isDir e) (entries d))))
        \<and> int (sum_list (map (\<lambda>e. length (data e)) (filter (\<lambda>e. \<not> isDir e) (entries d)))) < 2 ^ 63"
  proof -
    from that have a: "\<not> currentSize b \<le>s maxSize b" and b: "listable d"
      and c: "distinct (map ename (entries d))" and e: "\<forall>e \<in> set (entries d). \<not> locked e"
      and f: "0 \<le>s maxSize b"
      and g: "sint (currentSize b)
             \<le> int (sum_list (map (\<lambda>e. length (data e)) (filter (\<lambda>e. \<not> isDir e) (entries d))))"
      and h: "int (sum_list (map (\<lambda>e. length (data e)) (filter (\<lambda>e. \<not> isDir e) (entries d)))) < 2 ^ 63"
      by simp_all
    show ?thesis by (rule Prune_within_cap [OF a b c e f g h])
  qed
  show ?thesis
  proof (intro conjI impI)
    assume h: "\<not> currentSize b \<le>s maxSize b \<and> listable d \<and> distinct (map ename (entries d))"
    then have a: "\<not> currentSize b \<le>s maxSize b" and l: "listable d"
      and c: "distinct (map ename (entries d))" by simp_all
    show "\<exists>k\<le>length (sortedFiles (dir b) (sort_key ename (entries d))).
           fst (Prune b d) = None
           \<and> fst (snd (Prune b d))
             = b\<lparr>currentSize := currentSize b - sum_list (map fsize
                    (filter (\<lambda>f. os_Remove (dir b) (path f) d \<noteq> None)
                       (take k (sortedFiles (dir b) (sort_key ename (entries d))))))\<rparr>
           \<and> entries (snd (snd (Prune b d)))
             = filter (\<lambda>e. Join (dir b) (ename e) \<notin> path ` set
                    (filter (\<lambda>f. os_Remove (dir b) (path f) d \<noteq> None)
                       (take k (sortedFiles (dir b) (sort_key ename (entries d))))))
                 (entries d)
           \<and> (\<forall>r \<in> set (take k (sortedFiles (dir b) (sort_key ename (entries d)))).
                \<forall>s \<in> set (drop k (sortedFiles (dir b) (sort_key ename (entries d)))).
                  modTime r \<le> modTime s)
           \<and> (\<forall>j<k. \<not> (currentSize b - sum_list (map fsize
                    (filter (\<lambda>f. os_Remove (dir b) (path f) d \<noteq> None)
                       (take j (sortedFiles (dir b) (sort_key ename (entries d))))))
                  \<le>s maxSize b))
           \<and> (k = length (sortedFiles (dir b) (sort_key ename (entries d)))
                \<or> currentSize b - sum_list (map fsize
                    (filter (\<lambda>f. os_Remove (dir b) (path f) d \<noteq> None)
                       (take k (sortedFiles (dir b) (sort_key ename (entries d))))))
                  \<le>s maxSize b)"
      by (rule Prune_general [OF a l c])
    show "set (entries (snd (snd (Prune b d)))) \<subseteq> set (entries d)"
      by (rule Prune_skips_held(1) [OF a l c])
    show "\<forall>e \<in> set (entries d).
            isDir e \<or> locked e \<longrightarrow> e \<in> set (entries (snd (snd (Prune b d))))"
      by (rule Prune_skips_held(2) [OF a l c])
    show "currentSize (fst (snd (Prune b d))) \<le>s maxSize b
          \<or> (\<forall>e \<in> set (entries (snd (snd (Prune b d)))). \<not> isDir e \<longrightarrow> locked e)"
      by (rule Prune_skips_held(3) [OF a l c])
    show "\<forall>r \<in> set (entries d). r \<notin> set (entries (snd (snd (Prune b d)))) \<longrightarrow>
           (\<forall>s \<in> set (entries (snd (snd (Prune b d)))).
              \<not> isDir s \<and> \<not> locked s \<longrightarrow> mtime r \<le> mtime s)"
      by (rule Prune_skips_held(4) [OF a l c])
  qed (use w1 w2 w3 p0 p1 p2 p3 p4 in blast)+
qed

subsection \<open>The backlog\<close>

lemma backlog_facts:
  "\<not> currentSize backlog_buffer \<le>s maxSize backlog_buffer"
  "listable backlog_dir"
  "distinct (map ename (entries backlog_dir))"
  "\<forall>e \<in> set (entries backlog_dir). \<not> locked e"
  "0 \<le>s maxSize backlog_buffer"
  "sint (currentSize backlog_buffer)
     \<le> int (sum_list (map (\<lambda>e. length (data e)) (filter (\<lambda>e. \<not> isDir e) (entries backlog_dir))))"
  "int (sum_list (map (\<lambda>e. length (data e)) (filter (\<lambda>e. \<not> isDir e) (entries backlog_dir)))) < 2 ^ 63"
  by (simp_all add: backlog_buffer_def backlog_dir_def word_sle_eq)

lemma held_backlog_facts:
  "listable held_backlog_dir"
  "distinct (map ename (entries held_backlog_dir))"
  by (simp_all add: held_backlog_dir_def backlog_dir_def)

lemma example_Write_ok: "fst (Write Some 5 ''0123456789'' empty_buffer empty_dir) = None"
  by (simp add: Write_def empty_buffer_def empty_dir_def dir_WriteFile_def
      dir_OpenFile_trunc_def dir_File_Write_def word_sless_alt)

lemma example_Write_full:
  "maxSize backlog_buffer <s currentSize backlog_buffer + of_nat (length ''0123456789'')"
  by (simp add: backlog_buffer_def word_sless_alt)

text \<open>The listing of the backlog, and the order in which \<open>Prune\<close> visits its files.\<close>

lemma example_listing:
  "map ename (sort_key ename (entries backlog_dir)) = [''batch_10.json'', ''batch_9.json'']"
  "map ename (sort_key ename (entries locked_backlog_dir)) = [''batch_10.json'', ''batch_9.json'']"
  "map ename (sort_key ename (entries held_backlog_dir)) = [''batch_10.json'', ''batch_9.json'']"
  by (simp_all add: backlog_dir_def locked_backlog_dir_def held_backlog_dir_def)

lemma example_sortedFiles:
  "sortedFiles ''/var/lib/your-agent/buffer'' (sort_key ename (entries backlog_dir))
    = [\<lparr>path = ''/var/lib/your-agent/buffer/batch_9.json'', modTime = 9, fsize = 150\<rparr>,
       \<lparr>path = ''/var/lib/your-agent/buffer/batch_10.json'', modTime = 10, fsize = 150\<rparr>]"
  apply (simp add: sortedFiles_def sortByModTime_def listFiles_def backlog_dir_def Join_def file_size_def)
  apply (subst sort_outer.simps, simp)
  apply (subst sort_inner.simps, simp)
  apply (subst sort_inner.simps, simp)
  apply (subst sort_outer.simps, simp)
  done

lemma example_sortedFiles_locked:
  "sortedFiles ''/var/lib/your-agent/buffer'' (sort_key ename (entries locked_backlog_dir))
    = [\<lparr>path = ''/var/lib/your-agent/buffer/batch_9.json'', modTime = 9, fsize = 150\<rparr>,
       \<lparr>path = ''/var/lib/your-agent/buffer/batch_10.json'', modTime = 10, fsize = 150\<rparr>]"
  apply (simp add: sortedFiles_def sortByModTime_def listFiles_def locked_backlog_dir_def
      backlog_dir_def Join_def file_size_def)
  apply (subst sort_outer.simps, simp)
  apply (subst sort_inner.simps, simp)
  apply (subst sort_inner.simps, simp)
  apply (subst sort_outer.simps, simp)
  done

lemma example_sortedFiles_held:
  "sortedFiles ''/var/lib/your-agent/buffer'' (sort_key ename (entries held_backlog_dir))
    = [\<lparr>path = ''/var/lib/your-agent/buffer/batch_9.json'', modTime = 9, fsize = 150\<rparr>,
       \<lparr>path = ''/var/lib/your-agent/buffer/batch_10.json'', modTime = 10, fsize = 150\<rparr>]"
  apply (simp add: sortedFiles_def sortByModTime_def listFiles_def held_backlog_dir_def
      backlog_dir_def Join_def file_size_def)
  apply (subst sort_outer.simps, simp)
  apply (subst sort_inner.simps, simp)
  apply (subst sort_inner.simps, simp)
  apply (subst sort_outer.simps, simp)
  done

lemma example_Prune_backlog:
  "Prune backlog_buffer backlog_dir
     = (None, backlog_buffer\<lparr>currentSize := 150\<rparr>,
        backlog_dir\<lparr>entries :=
          [\<lparr>ename = ''batch_10.json'', isDir = False, data = replicate 150 (CHR ''x''),
            mtime = 10, locked = False\<rparr>],
          free := 1000150\<rparr>)"
proof -
  have d: "dir backlog_buffer = ''/var/lib/your-agent/buffer''" by (simp add: backlog_buffer_def)
  show ?thesis
    unfolding Prune_def d
    by (simp add: ReadDir_def example_sortedFiles)
       (simp add: backlog_buffer_def backlog_dir_def os_Remove_def Join_def word_sle_eq)
qed

text \<open>
  With the older file held by another process, \<open>Prune\<close> skips it and removes the newer
  one.
\<close>

lemma example_Prune_held:
  "Prune backlog_buffer held_backlog_dir
     = (None, backlog_buffer\<lparr>currentSize := 150\<rparr>,
        held_backlog_dir\<lparr>entries :=
          [\<lparr>ename = ''batch_9.json'', isDir = False, data = replicate 150 (CHR ''y''),
            mtime = 9, locked = True\<rparr>],
          free := 1000150\<rparr>)"
proof -
  have d: "dir backlog_buffer = ''/var/lib/your-agent/buffer''" by (simp add: backlog_buffer_def)
  show ?thesis
    unfolding Prune_def d
    by (simp add: ReadDir_def example_sortedFiles_held)
       (simp add: backlog_buffer_def held_backlog_dir_def backlog_dir_def os_Remove_def Join_def
          word_sle_eq)
qed

theorem buffer_cap_witness:
  "fst (Write Some 5 ''0123456789'' empty_buffer empty_dir) = None
   \<and> currentSize (fst (snd (Write Some 5 ''0123456789'' empty_buffer empty_dir)))
        \<le>s maxSize (fst (snd (Write Some 5 ''0123456789'' empty_buffer empty_dir)))
   \<and> maxSize backlog_buffer <s currentSize backlog_buffer + of_nat (length ''0123456789'')
   \<and> sint (currentSize backlog_buffer) + int (length ''0123456789'') < 2 ^ 63
   \<and> sint (maxSize backlog_buffer) < sint (currentSize backlog_buffer) + int (length ''0123456789'')
   \<and> Write Some 5 ''0123456789'' backlog_buffer backlog_dir
       = (Some (BufferFull (currentSize backlog_buffer) (maxSize backlog_buffer)),
          backlog_buffer, backlog_dir)
   \<and> currentSize empty_buffer \<le>s maxSize empty_buffer
   \<and> Prune empty_buffer empty_dir = (None, empty_buffer, empty_dir)
   \<and> \<not> currentSize backlog_buffer \<le>s maxSize backlog_buffer
   \<and> listable backlog_dir
   \<and> distinct (map ename (entries backlog_dir))
   \<and> list_all (\<lambda>e. \<not> locked e) (entries backlog_dir)
   \<and> 0 \<le>s maxSize backlog_buffer
   \<and> fst (Prune backlog_buffer backlog_dir) = None
   \<and> currentSize (fst (snd (Prune backlog_buffer backlog_dir))) \<le>s maxSize backlog_buffer
   \<and> listable held_backlog_dir
   \<and> distinct (map ename (entries held_backlog_dir))
   \<and> fst (Prune backlog_buffer held_backlog_dir) = None
   \<and> set (entries (snd (snd (Prune backlog_buffer held_backlog_dir))))
       \<subseteq> set (entries held_backlog_dir)
   \<and> map ename (entries (snd (snd (Prune backlog_buffer held_backlog_dir)))) = [''batch_9.json'']
   \<and> list_all locked (entries (snd (snd (Prune backlog_buffer held_backlog_dir))))
   \<and> currentSize (fst (snd (Prune backlog_buffer held_backlog_dir))) = 150"
proof -
  have e: "currentSize empty_buffer \<le>s maxSize empty_buffer"
    by (simp add: empty_buffer_def word_sle_eq)
  have la: "list_all (\<lambda>e. \<not> locked e) (entries backlog_dir)"
    using backlog_facts(4) by (simp add: list_all_iff)
  have p: "fst (Prune backlog_buffer backlog_dir) = None"
    by (simp add: example_Prune_backlog)
  have i: "sint (currentSize backlog_buffer) + int (length ''0123456789'') < 2 ^ 63"
    "sint (maxSize backlog_buffer) < sint (currentSize backlog_buffer) + int (length ''0123456789'')"
    by (simp_all add: backlog_buffer_def)
  note t1 = buffer_cap [where marshal = Some and now = 5 and v = "''0123456789''"
      and b = empty_buffer and d = empty_dir and js = "''0123456789''"]
  note t2 = buffer_cap [where marshal = Some and now = 5 and v = "''0123456789''"
      and b = backlog_buffer and d = backlog_dir and js = "''0123456789''"]
  note t3 = buffer_cap [where marshal = Some and now = 5 and v = "''0123456789''"
      and b = backlog_buffer and d = held_backlog_dir and js = "''0123456789''"]
  have w1: "currentSize (fst (snd (Write Some 5 ''0123456789'' empty_buffer empty_dir)))
        \<le>s maxSize (fst (snd (Write Some 5 ''0123456789'' empty_buffer empty_dir)))"
    using t1 example_Write_ok by blast
  have w2: "Write Some 5 ''0123456789'' backlog_buffer backlog_dir
       = (Some (BufferFull (currentSize backlog_buffer) (maxSize backlog_buffer)),
          backlog_buffer, backlog_dir)"
    using t2 example_Write_full by blast
  have p1: "Prune empty_buffer empty_dir = (None, empty_buffer, empty_dir)"
    using t1 e by blast
  have p2: "currentSize (fst (snd (Prune backlog_buffer backlog_dir))) \<le>s maxSize backlog_buffer"
    using t2 backlog_facts by blast
  have h1: "fst (Prune backlog_buffer held_backlog_dir) = None"
    using t3 backlog_facts(1) held_backlog_facts by blast
  have h2: "set (entries (snd (snd (Prune backlog_buffer held_backlog_dir))))
       \<subseteq> set (entries held_backlog_dir)"
    using t3 backlog_facts(1) held_backlog_facts by blast
  have h3: "map ename (entries (snd (snd (Prune backlog_buffer held_backlog_dir)))) = [''batch_9.json'']"
    "list_all locked (entries (snd (snd (Prune backlog_buffer held_backlog_dir))))"
    "currentSize (fst (snd (Prune backlog_buffer held_backlog_dir))) = 150"
    by (simp_all add: example_Prune_held)
  show ?thesis
    using example_Write_ok w1 example_Write_full i w2 e p1 backlog_facts(1,2,3,5) la p p2
      held_backlog_facts h1 h2 h3
    by simp
qed

text \<open>
  Claim C6, as the claim states it, fails for \<open>Prune\<close>: on the backlog whose two files
  are held by another process (300 bytes tracked, as \<open>New\<close> computes, under a limit of
  200) every removal fails, and \<open>Prune\<close> still returns successfully, with the tracked
  size above the limit.
\<close>

theorem Prune_locked_counterexample:
  "New ''/var/lib/your-agent/buffer'' 200 locked_backlog_dir = Inr backlog_buffer
   \<and> Prune backlog_buffer locked_backlog_dir = (None, backlog_buffer, locked_backlog_dir)
   \<and> \<not> (currentSize (fst (snd (Prune backlog_buffer locked_backlog_dir)))
          \<le>s maxSize (fst (snd (Prune backlog_buffer locked_backlog_dir))))"
proof -
  have d: "dir backlog_buffer = ''/var/lib/your-agent/buffer''" by (simp add: backlog_buffer_def)
  have n: "New ''/var/lib/your-agent/buffer'' 200 locked_backlog_dir = Inr backlog_buffer"
    by (simp add: New_def calculateSize_def backlog_buffer_def locked_backlog_dir_def
        backlog_dir_def file_size_def)
  have p: "Prune backlog_buffer locked_backlog_dir = (None, backlog_buffer, locked_backlog_dir)"
    unfolding Prune_def d
    by (simp add: ReadDir_def example_sortedFiles_locked)
       (simp add: backlog_buffer_def locked_backlog_dir_def backlog_dir_def os_Remove_def
          Join_def word_sle_eq)
  have o: "\<not> currentSize backlog_buffer \<le>s maxSize backlog_buffer"
    by (simp add: backlog_buffer_def word_sle_eq)
  show ?thesis using n p o by simp
qed

section \<open>Theorems: the delivery pipeline\<close>

subsection \<open>What sending leaves alone\<close>





subsection \<open>\<open>flush\<close> after a terminal send failure\<close>


subsection \<open>An outage\<close>













section \<open>Theorems: the scheduler\<close>

lemma runCollector_frame:
  "delivery (runCollector c a) = delivery a \<and> surroundings (runCollector c a) = surroundings a"
  by (simp add: runCollector_def Let_def split: sum.splits)

text \<open>
  Claim C3. \<open>runCollector\<close> on a collector that returns a record appends three lines to
  the scheduler's log (running, completed, and the record itself) and does nothing
  else: the sender and everything around it are unchanged. On the example collector
  the sender's queue is still empty and no request was sent, whereas \<open>Send\<close> of the
  same record would have queued it. A collector error is logged in one line and the
  invocation ends.
\<close>

theorem runCollector_only_logs:
  "delivery (runCollector (c\<lparr>Collect := Inr item\<rparr>) a) = delivery a
   \<and> surroundings (runCollector (c\<lparr>Collect := Inr item\<rparr>) a) = surroundings a
   \<and> scheduler_log (runCollector (c\<lparr>Collect := Inr item\<rparr>) a)
       = scheduler_log a @ [RunningCollector (Name c), CollectorCompleted (Name c),
                            CollectedData (Name c) item]
   \<and> scheduler_log (runCollector (c\<lparr>Collect := Inl err\<rparr>) a)
       = scheduler_log a @ [RunningCollector (Name c), CollectorFailed (Name c) err]
   \<and> Collect cpu_collector = Inr [(''cpu'', JNumber 7)]
   \<and> queue (delivery (runCollector cpu_collector example_process)) = []
   \<and> sent (uplink (surroundings (runCollector cpu_collector example_process))) = []
   \<and> queue (fst (snd (Send outage_codec [(''cpu'', JNumber 7)] (delivery example_process)
                        (surroundings example_process))))
       = [\<lparr>batch_AgentID = ''agent-1'', Timestamp = 20, Data = [[(''cpu'', JNumber 7)]]\<rparr>]"
proof -
  have g: "delivery (runCollector (c\<lparr>Collect := Inr item\<rparr>) a) = delivery a
   \<and> surroundings (runCollector (c\<lparr>Collect := Inr item\<rparr>) a) = surroundings a
   \<and> scheduler_log (runCollector (c\<lparr>Collect := Inr item\<rparr>) a)
       = scheduler_log a @ [RunningCollector (Name c), CollectorCompleted (Name c),
                            CollectedData (Name c) item]"
    by (simp add: runCollector_def Let_def)
  have l: "scheduler_log (runCollector (c\<lparr>Collect := Inl err\<rparr>) a)
       = scheduler_log a @ [RunningCollector (Name c), CollectorFailed (Name c) err]"
    by (simp add: runCollector_def Let_def)
  have e: "Collect cpu_collector = Inr [(''cpu'', JNumber 7)]
   \<and> queue (delivery (runCollector cpu_collector example_process)) = []
   \<and> sent (uplink (surroundings (runCollector cpu_collector example_process))) = []"
    by (simp add: runCollector_frame)
       (simp add: cpu_collector_def example_process_def backlog_sender_def outage_pipeline_def)
  have s: "queue (fst (snd (Send outage_codec [(''cpu'', JNumber 7)] (delivery example_process)
                        (surroundings example_process))))
       = [\<lparr>batch_AgentID = ''agent-1'', Timestamp = 20, Data = [[(''cpu'', JNumber 7)]]\<rparr>]"
    by (simp add: Send_def Let_def example_process_def backlog_sender_def outage_pipeline_def
        example_runtime_config_def MarkBootstrapped_def NewBootstrapConfig_def word_sle_eq)
  show ?thesis using g l e s by simp
qed

end
